theory Spec2Isabelle
  imports Main "HOL-Library.Word"
begin

unbundle bit_operations_syntax

section \<open>The parsed schema\<close>

text \<open>
  The generator \<^verbatim>\<open>tlobjects_generator.py\<close> consumes the objects that
  \<^verbatim>\<open>TLParser.parse_file\<close> yields. The parser is not among the sources at hand, so the
  records below hold exactly the attributes the generator reads: of an argument
  \<^verbatim>\<open>name, type, is_vector, is_flag, flag_index, flag_indicator, generic_definition,
  is_generic\<close>, of a TLObject \<^verbatim>\<open>namespace, name, id, args, is_function\<close> and its
  \<^verbatim>\<open>str()\<close>, which the class docstring quotes.
\<close>

record argument =
  name :: string
  type :: string
  is_vector :: bool
  is_flag :: bool
  flag_index :: nat
  flag_indicator :: bool
  generic_definition :: bool
  is_generic :: bool

record tlobject =
  namespace :: "string option"
  tl_name :: string
  tl_id :: nat
  tl_args :: "argument list"
  is_function :: bool
  tl_repr :: string

section \<open>Python string helpers\<close>

text \<open>\<^verbatim>\<open>hex(n)\<close> and \<^verbatim>\<open>'{}'.format(n)\<close> for a non-negative integer.\<close>

fun hex_digits :: "nat \<Rightarrow> string" where
  "hex_digits n =
     (if n < 16 then [''0123456789abcdef'' ! n]
      else hex_digits (n div 16) @ [''0123456789abcdef'' ! (n mod 16)])"

declare hex_digits.simps [simp del]

definition hex :: "nat \<Rightarrow> string" where
  "hex n = ''0x'' @ hex_digits n"

fun decimal :: "nat \<Rightarrow> string" where
  "decimal n =
     (if n < 10 then [''0123456789'' ! n]
      else decimal (n div 10) @ [''0123456789'' ! (n mod 10)])"

declare decimal.simps [simp del]

text \<open>\<^verbatim>\<open>sep.join(xs)\<close>.\<close>

fun join :: "string \<Rightarrow> string list \<Rightarrow> string" where
  "join sep [] = []"
| "join sep [x] = x"
| "join sep (x # y # ys) = x @ sep @ join sep (y # ys)"

text \<open>
  The character classes \<^verbatim>\<open>[a-z]\<close>, \<^verbatim>\<open>[A-Z]\<close>, \<^verbatim>\<open>[a-z0-9]\<close> of the regular
  expressions, and \<^verbatim>\<open>str.upper\<close>, \<^verbatim>\<open>str.lower\<close> on ASCII letters (schema names
  are ASCII identifiers; other bytes are left as they are).
\<close>

definition is_lower_az :: "char \<Rightarrow> bool" where
  "is_lower_az c = (c \<in> set ''abcdefghijklmnopqrstuvwxyz'')"

definition is_upper_az :: "char \<Rightarrow> bool" where
  "is_upper_az c = (c \<in> set ''ABCDEFGHIJKLMNOPQRSTUVWXYZ'')"

definition is_digit_09 :: "char \<Rightarrow> bool" where
  "is_digit_09 c = (c \<in> set ''0123456789'')"

definition upper_char :: "char \<Rightarrow> char" where
  "upper_char c =
     (case map_of (zip ''abcdefghijklmnopqrstuvwxyz'' ''ABCDEFGHIJKLMNOPQRSTUVWXYZ'') c of
        Some u \<Rightarrow> u
      | None \<Rightarrow> c)"

definition lower_char :: "char \<Rightarrow> char" where
  "lower_char c =
     (case map_of (zip ''ABCDEFGHIJKLMNOPQRSTUVWXYZ'' ''abcdefghijklmnopqrstuvwxyz'') c of
        Some l \<Rightarrow> l
      | None \<Rightarrow> c)"

text \<open>\<^verbatim>\<open>os.path.join(a, b)\<close> on a POSIX system.\<close>

definition path_join :: "string \<Rightarrow> string \<Rightarrow> string" where
  "path_join a b =
     (if b \<noteq> [] \<and> hd b = CHR ''/'' then b
      else if a = [] \<or> last a = CHR ''/'' then a @ b
      else a @ ''/'' @ b)"

section \<open>Naming of the generated classes and files\<close>

text \<open>
  \<^verbatim>\<open>re.sub(r'_([a-z])', lambda m: m.group(1).upper(), s)\<close>: scanning from the left,
  an underscore followed by a lower-case letter is replaced by that letter in upper case.
\<close>

fun sub_underscore_lower :: "string \<Rightarrow> string" where
  "sub_underscore_lower (c # d # rest) =
     (if c = CHR ''_'' \<and> is_lower_az d then upper_char d # sub_underscore_lower rest
      else c # sub_underscore_lower (d # rest))"
| "sub_underscore_lower cs = cs"

definition get_class_name :: "tlobject \<Rightarrow> string" where
  "get_class_name tlobject =
     (let result = sub_underscore_lower (tl_name tlobject)
      in map upper_char (take 1 result) @ filter (\<lambda>c. c \<noteq> CHR ''_'') (drop 1 result))"

text \<open>
  \<^verbatim>\<open>re.sub('(.)([A-Z][a-z]+)', r'\1_\2', s)\<close>: a character other than a newline, then
  an upper-case letter, then the longest run of at least one lower-case letter; an
  underscore is put after the first character, and the scan goes on after the run.
\<close>

function (sequential) sub_first_cap :: "string \<Rightarrow> string" where
  "sub_first_cap (c # d # e # rest) =
     (if c \<noteq> CHR 0x0A \<and> is_upper_az d \<and> is_lower_az e
      then c # CHR ''_'' # d # e # takeWhile is_lower_az rest
             @ sub_first_cap (dropWhile is_lower_az rest)
      else c # sub_first_cap (d # e # rest))"
| "sub_first_cap cs = cs"
  by pat_completeness auto
termination
  by (relation "measure length") (auto simp: less_Suc_eq_le le_SucI length_dropWhile_le)

text \<open>\<^verbatim>\<open>re.sub('([a-z0-9])([A-Z])', r'\1_\2', s)\<close>.\<close>

fun sub_all_cap :: "string \<Rightarrow> string" where
  "sub_all_cap (c # d # rest) =
     (if (is_lower_az c \<or> is_digit_09 c) \<and> is_upper_az d
      then c # CHR ''_'' # d # sub_all_cap rest
      else c # sub_all_cap (d # rest))"
| "sub_all_cap cs = cs"

definition get_file_name :: "tlobject \<Rightarrow> bool \<Rightarrow> string" where
  "get_file_name tlobject add_extension =
     (let s1 = sub_first_cap (tl_name tlobject);
          result = map lower_char (sub_all_cap s1)
      in if add_extension then result @ ''.py'' else result)"

definition get_full_file_name :: "tlobject \<Rightarrow> string" where
  "get_full_file_name tlobject =
     (let fullname = get_file_name tlobject False;
          fullname = (case namespace tlobject of
                        None \<Rightarrow> fullname
                      | Some ns \<Rightarrow> ns @ ''.'' @ fullname)
      in if is_function tlobject then ''tl.functions.'' @ fullname
         else ''tl.types.'' @ fullname)"

section \<open>The emitted Python\<close>

text \<open>
  The generator writes Python source through a \<^verbatim>\<open>SourceBuilder\<close>. Every line it can
  emit comes from one of a fixed set of format strings; \<open>pystmt\<close> has one constructor per
  format string, and \<open>render\<close> gives the text of the line. A variable of the emitted code
  is either an attribute \<^verbatim>\<open>self.n\<close> or a local name.
\<close>

datatype pyvar = Attr string | Local string

fun render_var :: "pyvar \<Rightarrow> string" where
  "render_var (Attr n) = ''self.'' @ n"
| "render_var (Local n) = n"

text \<open>\<^verbatim>\<open>'{}_len'.format(name)\<close> and the like: a suffix put after a variable's text.\<close>

fun var_suffix :: "pyvar \<Rightarrow> string \<Rightarrow> pyvar" where
  "var_suffix (Attr n) s = Attr (n @ s)"
| "var_suffix (Local n) s = Local (n @ s)"

datatype pystmt =
    Text string
  | DefOnSend
  | DefOnResponse
  | WriteCtorId nat string
  | IfNotNone pyvar
  | WriteVectorId
  | WriteLen pyvar
  | ForItemIn string pyvar
  | FlagsComment
  | FlagsZero
  | FlagsOr nat string
  | WriteInt pyvar
  | WriteLong pyvar
  | WriteLargeInt pyvar nat
  | WriteDouble pyvar
  | WriteString pyvar
  | WriteBool pyvar
  | WriteTrue
  | WriteBytes pyvar
  | WriteObject pyvar
  | ReadResult
  | Pass
  | IfFlagSet nat
  | ReadVectorId
  | InitList pyvar
  | ForRange pyvar
  | Append pyvar pyvar
  | ReadInt pyvar
  | ReadLong pyvar
  | ReadLargeInt pyvar nat
  | ReadDouble pyvar
  | ReadString pyvar
  | ReadBool pyvar
  | ReadTrue pyvar
  | ReadBytes pyvar
  | ReadObject pyvar
  | Import string
  | RegistryEntry nat string string

fun render :: "pystmt \<Rightarrow> string" where
  "render (Text s) = s"
| "render DefOnSend = ''def on_send(self, writer):''"
| "render DefOnResponse = ''def on_response(self, reader):''"
| "render (WriteCtorId i n) =
     ''writer.write_int('' @ hex i @ '')  # '' @ n @ [CHR 0x27] @ ''s constructor ID''"
| "render (IfNotNone v) = ''if '' @ render_var v @ '' is not None:''"
| "render WriteVectorId = ''writer.write_int(0x1cb5c415)  # Vector's constructor ID''"
| "render (WriteLen v) = ''writer.write_int(len('' @ render_var v @ ''))''"
| "render (ForItemIn n v) = ''for '' @ n @ ''_item in '' @ render_var v @ '':''"
| "render FlagsComment =
     ''# Calculate the flags. This equals to those flag arguments which are NOT None''"
| "render FlagsZero = ''flags = 0''"
| "render (FlagsOr i n) =
     ''flags |= (1 << '' @ decimal i @ '') if '' @ render_var (Attr n) @ '' is not None else 0''"
| "render (WriteInt v) = ''writer.write_int('' @ render_var v @ '')''"
| "render (WriteLong v) = ''writer.write_long('' @ render_var v @ '')''"
| "render (WriteLargeInt v b) =
     ''writer.write_large_int('' @ render_var v @ '', bits='' @ decimal b @ '')''"
| "render (WriteDouble v) = ''writer.write_double('' @ render_var v @ '')''"
| "render (WriteString v) = ''writer.tgwrite_string('' @ render_var v @ '')''"
| "render (WriteBool v) = ''writer.tgwrite_bool('' @ render_var v @ '')''"
| "render WriteTrue = ''writer.write_int(0x3fedd339)  # true''"
| "render (WriteBytes v) = ''writer.write('' @ render_var v @ '')''"
| "render (WriteObject v) = render_var v @ ''.write(writer)''"
| "render ReadResult = ''self.result = reader.tgread_object()''"
| "render Pass = ''pass''"
| "render (IfFlagSet i) = ''if (flags & (1 << '' @ decimal i @ '')) != 0:''"
| "render ReadVectorId = ''reader.read_int()  # Vector's constructor ID''"
| "render (InitList v) = render_var v @ '' = []  # Initialize an empty list''"
| "render (ForRange v) = ''for _ in range('' @ render_var v @ ''):''"
| "render (Append v w) = render_var v @ ''.append('' @ render_var w @ '')''"
| "render (ReadInt v) = render_var v @ '' = reader.read_int()''"
| "render (ReadLong v) = render_var v @ '' = reader.read_long()''"
| "render (ReadLargeInt v b) =
     render_var v @ '' = reader.read_large_int(bits='' @ decimal b @ '')''"
| "render (ReadDouble v) = render_var v @ '' = reader.read_double()''"
| "render (ReadString v) = render_var v @ '' = reader.tgread_string()''"
| "render (ReadBool v) = render_var v @ '' = reader.tgread_bool()''"
| "render (ReadTrue v) = render_var v @ '' = reader.read_int() == 0x3fedd339  # true''"
| "render (ReadBytes v) = render_var v @ '' = reader.read()''"
| "render (ReadObject v) = render_var v @ '' = reader.tgread_object(reader)''"
| "render (Import m) = ''import '' @ m"
| "render (RegistryEntry i m c) = hex i @ '': '' @ m @ ''.'' @ c @ '',''"

text \<open>
  The calls made on the builder, in order: \<^verbatim>\<open>writeln(line)\<close>, \<^verbatim>\<open>write(text)\<close>,
  \<^verbatim>\<open>end_block()\<close>, and a change of \<^verbatim>\<open>current_indent\<close> by a number of levels. The
  builder class is not among the sources at hand; the generator's output is this sequence
  of calls.
\<close>

datatype bop = Writeln pystmt | Write string | EndBlock | IndentBy int

abbreviation Blank :: bop where
  "Blank \<equiv> Writeln (Text [])"

section \<open>The generator\<close>

subsection \<open>\<^verbatim>\<open>write_onsend_code\<close> and \<^verbatim>\<open>write_onresponse_code\<close>\<close>

text \<open>
  Both functions are called as \<^verbatim>\<open>f(builder, arg, tlobject.args)\<close> with \<^verbatim>\<open>arg\<close> an
  element of \<^verbatim>\<open>tlobject.args\<close>, and both assign to \<^verbatim>\<open>arg.is_vector\<close> around their
  recursive call. The argument objects are therefore kept in a store, the list \<open>args\<close>,
  and \<^verbatim>\<open>arg\<close> is the position \<open>i\<close> of the object in it; an assignment to an attribute of
  \<^verbatim>\<open>arg\<close> is an update of the store, which the functions return next to the builder
  calls they made. A position outside the store stands for no object; no call site
  produces one, and the functions then do nothing. The optional parameter \<^verbatim>\<open>name\<close> is
  \<open>None\<close> or the variable to use.
\<close>

function write_onsend_code ::
  "argument list \<Rightarrow> nat \<Rightarrow> pyvar option \<Rightarrow> bop list \<times> argument list" where
  "write_onsend_code args i name_opt =
     (if length args \<le> i then ([], args)
      else if generic_definition (args ! i) then ([], args)
      else
        let arg = args ! i;
            nm = (case name_opt of None \<Rightarrow> Attr (name arg) | Some n \<Rightarrow> n);
            opened = (if is_flag arg then [Writeln (IfNotNone nm)] else []);
            (body, args') =
              (if is_vector arg then
                 let (inner, args1) =
                       write_onsend_code (args[i := arg\<lparr>is_vector := False\<rparr>]) i
                         (Some (Local (name arg @ ''_item'')))
                 in ([Writeln WriteVectorId, Writeln (WriteLen nm),
                      Writeln (ForItemIn (name arg) nm)] @ inner,
                     args1[i := (args1 ! i)\<lparr>is_vector := True\<rparr>])
               else if flag_indicator arg then
                 ([Writeln FlagsComment, Writeln FlagsZero]
                  @ map (\<lambda>flag. Writeln (FlagsOr (flag_index flag) (name flag)))
                      (filter is_flag args)
                  @ [Writeln (WriteInt (Local ''flags'')), Blank], args)
               else if ''int'' = type arg then ([Writeln (WriteInt nm)], args)
               else if ''long'' = type arg then ([Writeln (WriteLong nm)], args)
               else if ''int128'' = type arg then ([Writeln (WriteLargeInt nm 128)], args)
               else if ''int256'' = type arg then ([Writeln (WriteLargeInt nm 256)], args)
               else if ''double'' = type arg then ([Writeln (WriteDouble nm)], args)
               else if ''string'' = type arg then ([Writeln (WriteString nm)], args)
               else if ''Bool'' = type arg then ([Writeln (WriteBool nm)], args)
               else if ''true'' = type arg then ([Writeln WriteTrue], args)
               else if ''bytes'' = type arg then ([Writeln (WriteBytes nm)], args)
               else ([Writeln (WriteObject nm)], args))
        in (opened @ body
            @ (if is_vector (args' ! i) then [EndBlock] else [])
            @ (if is_flag (args' ! i) then [EndBlock] else []),
            args'))"
  by pat_completeness auto
termination
  by (relation "measure (\<lambda>(args, i, name_opt).
        if i < length args \<and> is_vector (args ! i) then 1 else 0)") auto

declare write_onsend_code.simps [simp del]

function write_onresponse_code ::
  "argument list \<Rightarrow> nat \<Rightarrow> pyvar option \<Rightarrow> bop list \<times> argument list" where
  "write_onresponse_code args i name_opt =
     (if length args \<le> i then ([], args)
      else if generic_definition (args ! i) then ([], args)
      else
        let arg = args ! i;
            nm = (case name_opt of None \<Rightarrow> Attr (name arg) | Some n \<Rightarrow> n);
            opened = (if is_flag arg then [Writeln (IfFlagSet (flag_index arg))] else []);
            (body, args') =
              (if is_vector arg then
                 let (inner, args1) =
                       write_onresponse_code (args[i := arg\<lparr>is_vector := False\<rparr>]) i
                         (Some (Local (name arg @ ''_item'')))
                 in ([Writeln ReadVectorId, Writeln (InitList nm),
                      Writeln (ReadInt (var_suffix nm ''_len'')),
                      Writeln (ForRange (var_suffix nm ''_len''))] @ inner
                     @ [Writeln (Append nm (Local (name (args1 ! i) @ ''_item'')))],
                     args1[i := (args1 ! i)\<lparr>is_vector := True\<rparr>])
               else if flag_indicator arg then
                 ([Writeln (ReadInt (Local ''flags'')), Blank], args)
               else if ''int'' = type arg then ([Writeln (ReadInt nm)], args)
               else if ''long'' = type arg then ([Writeln (ReadLong nm)], args)
               else if ''int128'' = type arg then ([Writeln (ReadLargeInt nm 128)], args)
               else if ''int256'' = type arg then ([Writeln (ReadLargeInt nm 256)], args)
               else if ''double'' = type arg then ([Writeln (ReadDouble nm)], args)
               else if ''string'' = type arg then ([Writeln (ReadString nm)], args)
               else if ''Bool'' = type arg then ([Writeln (ReadBool nm)], args)
               else if ''true'' = type arg then ([Writeln (ReadTrue nm)], args)
               else if ''bytes'' = type arg then ([Writeln (ReadBytes nm)], args)
               else ([Writeln (ReadObject nm)], args))
        in (opened @ body
            @ (if is_vector (args' ! i) then [EndBlock] else [])
            @ (if is_flag (args' ! i) then [EndBlock] else []),
            args'))"
  by pat_completeness auto
termination
  by (relation "measure (\<lambda>(args, i, name_opt).
        if i < length args \<and> is_vector (args ! i) then 1 else 0)") auto

declare write_onresponse_code.simps [simp del]

text \<open>
  The loop \<^verbatim>\<open>for arg in tlobject.args: f(builder, arg, tlobject.args)\<close>: the positions of
  the store in order, each call working on the store the previous one left.
\<close>

fun for_each_arg ::
  "(argument list \<Rightarrow> nat \<Rightarrow> pyvar option \<Rightarrow> bop list \<times> argument list)
   \<Rightarrow> nat list \<Rightarrow> argument list \<Rightarrow> bop list \<times> argument list" where
  "for_each_arg f [] args = ([], args)"
| "for_each_arg f (i # is) args =
     (let (b, args1) = f args i None;
          (bs, args2) = for_each_arg f is args1
      in (b @ bs, args2))"

subsection \<open>\<^verbatim>\<open>generate_tlobjecs\<close>: one class per TLObject\<close>

text \<open>
  The parameters of \<^verbatim>\<open>__init__\<close>: the arguments that are no flag indicator, sorted by
  \<^verbatim>\<open>is_flag\<close> (Python's \<^verbatim>\<open>sorted\<close> is stable and \<open>False < True\<close>, as \<open>sort_key\<close> is),
  then without the generic definitions, a flag written with \<^verbatim>\<open>=None\<close>.
\<close>

definition init_params :: "tlobject \<Rightarrow> string list" where
  "init_params tlobject =
     (let args = sort_key is_flag (filter (\<lambda>arg. \<not> flag_indicator arg) (tl_args tlobject))
      in map (\<lambda>arg. if \<not> is_flag arg then name arg else name arg @ ''=None'')
           (filter (\<lambda>arg. \<not> flag_indicator arg \<and> \<not> generic_definition arg) args))"

text \<open>The docstring line of one argument, written piecewise and ended by an empty \<^verbatim>\<open>writeln\<close>.\<close>

definition param_doc :: "argument \<Rightarrow> bop list" where
  "param_doc arg =
     (if \<not> flag_indicator arg then
        [Write ('':param '' @ name arg @ '': Telegram type: '' @ [CHR 0xC2, CHR 0xAB]
                @ type arg @ [CHR 0xC2, CHR 0xBB] @ ''.'')]
        @ (if is_vector arg then [Write '' Must be a list.''] else [])
        @ (if is_generic arg then [Write '' This should be another MTProtoRequest.''] else [])
        @ [Blank]
      else [])"

text \<open>Lines 36 to 92: imports, class line, class docstring and \<^verbatim>\<open>__init__\<close>.\<close>

definition class_init :: "tlobject \<Rightarrow> bop list" where
  "class_init tlobject =
     (let params = init_params tlobject;
          args = filter (\<lambda>arg. \<not> flag_indicator arg \<and> \<not> generic_definition arg)
                   (tl_args tlobject)
      in [Writeln (Text ''from requests.mtproto_request import MTProtoRequest''),
          Blank, Blank,
          Writeln (Text (''class '' @ get_class_name tlobject @ ''(MTProtoRequest):'')),
          Writeln (Text ([CHR 0x22, CHR 0x22, CHR 0x22]
            @ ''Class generated by TLObjects' generator. All changes will be ERASED. ''
            @ ''Original .tl definition below.'')),
          Writeln (Text (tl_repr tlobject @ [CHR 0x22, CHR 0x22, CHR 0x22])),
          Blank,
          (if params \<noteq> []
           then Writeln (Text (''def __init__(self, '' @ join '', '' params @ ''):''))
           else Writeln (Text ''def __init__(self):''))]
         @ (if args \<noteq> []
            then [Writeln (Text [CHR 0x22, CHR 0x22, CHR 0x22])]
                 @ concat (map param_doc args)
                 @ [Writeln (Text [CHR 0x22, CHR 0x22, CHR 0x22])]
            else [])
         @ [Writeln (Text ''super().__init__()'')]
         @ (if is_function tlobject then [Writeln (Text ''self.result = None'')] else [])
         @ (if args \<noteq> [] then [Blank] else [])
         @ map (\<lambda>arg. Writeln (Text (''self.'' @ name arg @ '' = '' @ name arg))) args
         @ [EndBlock])"

text \<open>
  Lines 94 to 101, the method \<^verbatim>\<open>on_send\<close>, and lines 103 to 114, the method
  \<^verbatim>\<open>on_response\<close>; each returns the builder calls and the store of arguments it leaves.
\<close>

definition on_send_code :: "tlobject \<Rightarrow> bop list \<times> argument list" where
  "on_send_code tlobject =
     (let (body, args') =
            for_each_arg write_onsend_code [0..<length (tl_args tlobject)] (tl_args tlobject)
      in ([Writeln DefOnSend, Writeln (WriteCtorId (tl_id tlobject) (tl_name tlobject))]
          @ body @ [EndBlock], args'))"

definition on_response_code :: "tlobject \<Rightarrow> bop list \<times> argument list" where
  "on_response_code tlobject =
     (let (body, args') =
            (if is_function tlobject then ([Writeln ReadResult], tl_args tlobject)
             else if tl_args tlobject \<noteq> [] then
               for_each_arg write_onresponse_code [0..<length (tl_args tlobject)]
                 (tl_args tlobject)
             else ([Writeln Pass], tl_args tlobject))
      in ([Writeln DefOnResponse] @ body @ [EndBlock], args'))"

text \<open>The whole file of one TLObject: the builder calls, and the TLObject afterwards.\<close>

definition generate_class :: "tlobject \<Rightarrow> bop list \<times> tlobject" where
  "generate_class tlobject =
     (let (send, args1) = on_send_code tlobject;
          tlobject1 = tlobject\<lparr>tl_args := args1\<rparr>;
          (response, args2) = on_response_code tlobject1
      in (class_init tlobject @ send @ response, tlobject1\<lparr>tl_args := args2\<rparr>))"

subsection \<open>\<^verbatim>\<open>generate_tlobjecs\<close>: the files written\<close>

text \<open>Lines 17 to 32: the path of the file of one TLObject.\<close>

definition class_filename :: "tlobject \<Rightarrow> string" where
  "class_filename tlobject =
     (let out_dir = path_join ''tl'' (if is_function tlobject then ''functions'' else ''types'');
          out_dir = (case namespace tlobject of
                       None \<Rightarrow> out_dir
                     | Some ns \<Rightarrow> path_join out_dir ns)
      in path_join out_dir (get_file_name tlobject True))"

text \<open>Lines 116 to 140: the file \<^verbatim>\<open>tl/all_tlobjects.py\<close> with the dictionary of all classes.\<close>

definition all_tlobjects_code :: "tlobject list \<Rightarrow> bop list" where
  "all_tlobjects_code tlobjects =
     [Writeln (Text ([CHR 0x22, CHR 0x22, CHR 0x22]
        @ ''File generated by TLObjects' generator. All changes will be ERASED''
        @ [CHR 0x22, CHR 0x22, CHR 0x22])),
      Blank]
     @ map (\<lambda>tlobject. Writeln (Import (get_full_file_name tlobject))) tlobjects
     @ [Blank, Writeln (Text ''tlobjects = {''), IndentBy 1]
     @ map (\<lambda>tlobject. Writeln (RegistryEntry (tl_id tlobject)
              (get_full_file_name tlobject) (get_class_name tlobject))) tlobjects
     @ [IndentBy (- 1), Writeln (Text ''}'')]"

text \<open>
  The whole run yields the files opened for writing, in order, each with the builder calls
  that fill it (a later file of the same path replaces an earlier one). The directories
  and the empty \<^verbatim>\<open>__init__.py\<close> files the run also creates carry no generated code and
  are left out.
\<close>

definition generate_tlobjecs :: "tlobject list \<Rightarrow> (string \<times> bop list) list" where
  "generate_tlobjecs tlobjects =
     map (\<lambda>tlobject. (class_filename tlobject, fst (generate_class tlobject))) tlobjects
     @ [(path_join ''tl'' ''all_tlobjects.py'', all_tlobjects_code tlobjects)]"

section \<open>What the emitted code does\<close>

subsection \<open>Values, the wire, and the writer and reader\<close>

text \<open>
  The values an attribute of a generated object can hold: \<^verbatim>\<open>None\<close>, an integer, a
  boolean, a double (its 64 bits), a string, a byte string, a list, or another generated
  object (identified by a number).
\<close>

datatype pyval =
    VNone
  | VInt int
  | VBool bool
  | VDouble "64 word"
  | VStr string
  | VBytes string
  | VList "pyval list"
  | VObject nat

text \<open>
  Modelled from the spec: the \<^verbatim>\<open>writer\<close> and \<^verbatim>\<open>reader\<close> objects that the emitted
  code calls are external collaborators, specified only at their interface (``fixed-width
  integer/long/128-bit/256-bit encode-decode, IEEE double encode-decode, length-prefixed
  string and raw-byte encode-decode, and a boolean convention'', each read the ``matching''
  decode of the write). The wire is therefore a sequence of items, one per call of a writer
  primitive; an integer item holds the bits that fit its width. A generated object written
  by its own \<^verbatim>\<open>write\<close> and read back through \<^verbatim>\<open>tgread_object\<close> (``read constructor
  id, look up type in the Registry, invoke that type's decode'') is one item as well.
\<close>

datatype wire =
    WInt "32 word"
  | WLong "64 word"
  | WLarge nat int
  | WDouble "64 word"
  | WString string
  | WBool bool
  | WBytes string
  | WObject nat

datatype pyerror = NameError | TypeError | ReadError | SyntaxError | Unsupported

record pystate =
  vars :: "pyvar \<Rightarrow> pyval option"
  written :: "wire list"
  unread :: "wire list"

definition lookup :: "pystate \<Rightarrow> pyvar \<Rightarrow> pyerror + pyval" where
  "lookup s v = (case vars s v of None \<Rightarrow> Inl NameError | Some x \<Rightarrow> Inr x)"

definition assign :: "pyvar \<Rightarrow> pyval \<Rightarrow> pystate \<Rightarrow> pystate" where
  "assign v x s = s\<lparr>vars := (vars s)(v \<mapsto> x)\<rparr>"

definition emit :: "wire \<Rightarrow> pystate \<Rightarrow> pystate" where
  "emit w s = s\<lparr>written := written s @ [w]\<rparr>"

text \<open>Writing the value of a variable with one writer primitive.\<close>

definition write_var :: "(pyval \<Rightarrow> wire option) \<Rightarrow> pyvar \<Rightarrow> pystate \<Rightarrow> pyerror + pystate" where
  "write_var enc v s =
     (case lookup s v of
        Inl e \<Rightarrow> Inl e
      | Inr x \<Rightarrow> (case enc x of None \<Rightarrow> Inl TypeError | Some w \<Rightarrow> Inr (emit w s)))"

text \<open>Reading the next item with one reader primitive, and storing the value in a variable.\<close>

definition read_value :: "(wire \<Rightarrow> pyval option) \<Rightarrow> pystate \<Rightarrow> pyerror + pyval \<times> pystate" where
  "read_value dec s =
     (case unread s of
        [] \<Rightarrow> Inl ReadError
      | w # ws \<Rightarrow> (case dec w of
                    None \<Rightarrow> Inl ReadError
                  | Some x \<Rightarrow> Inr (x, s\<lparr>unread := ws\<rparr>)))"

definition read_var :: "(wire \<Rightarrow> pyval option) \<Rightarrow> pyvar \<Rightarrow> pystate \<Rightarrow> pyerror + pystate" where
  "read_var dec v s =
     (case read_value dec s of Inl e \<Rightarrow> Inl e | Inr (x, s') \<Rightarrow> Inr (assign v x s'))"

fun enc_int :: "pyval \<Rightarrow> wire option" where
  "enc_int (VInt x) = Some (WInt (word_of_int x))"
| "enc_int _ = None"

fun enc_long :: "pyval \<Rightarrow> wire option" where
  "enc_long (VInt x) = Some (WLong (word_of_int x))"
| "enc_long _ = None"

fun enc_large :: "nat \<Rightarrow> pyval \<Rightarrow> wire option" where
  "enc_large b (VInt x) = Some (WLarge b (take_bit b x))"
| "enc_large b _ = None"

fun enc_double :: "pyval \<Rightarrow> wire option" where
  "enc_double (VDouble d) = Some (WDouble d)"
| "enc_double _ = None"

fun enc_string :: "pyval \<Rightarrow> wire option" where
  "enc_string (VStr t) = Some (WString t)"
| "enc_string _ = None"

fun enc_bool :: "pyval \<Rightarrow> wire option" where
  "enc_bool (VBool b) = Some (WBool b)"
| "enc_bool _ = None"

fun enc_bytes :: "pyval \<Rightarrow> wire option" where
  "enc_bytes (VBytes t) = Some (WBytes t)"
| "enc_bytes _ = None"

fun enc_object :: "pyval \<Rightarrow> wire option" where
  "enc_object (VObject obj) = Some (WObject obj)"
| "enc_object _ = None"

fun dec_int :: "wire \<Rightarrow> pyval option" where
  "dec_int (WInt w) = Some (VInt (sint w))"
| "dec_int _ = None"

fun dec_long :: "wire \<Rightarrow> pyval option" where
  "dec_long (WLong w) = Some (VInt (sint w))"
| "dec_long _ = None"

fun dec_large :: "nat \<Rightarrow> wire \<Rightarrow> pyval option" where
  "dec_large b (WLarge b' x) = (if b' = b then Some (VInt (signed_take_bit (b - 1) x)) else None)"
| "dec_large b _ = None"

fun dec_double :: "wire \<Rightarrow> pyval option" where
  "dec_double (WDouble d) = Some (VDouble d)"
| "dec_double _ = None"

fun dec_string :: "wire \<Rightarrow> pyval option" where
  "dec_string (WString t) = Some (VStr t)"
| "dec_string _ = None"

fun dec_bool :: "wire \<Rightarrow> pyval option" where
  "dec_bool (WBool b) = Some (VBool b)"
| "dec_bool _ = None"

fun dec_true :: "wire \<Rightarrow> pyval option" where
  "dec_true (WInt w) = Some (VBool (sint w = 0x3fedd339))"
| "dec_true _ = None"

fun dec_bytes :: "wire \<Rightarrow> pyval option" where
  "dec_bytes (WBytes t) = Some (VBytes t)"
| "dec_bytes _ = None"

fun dec_object :: "wire \<Rightarrow> pyval option" where
  "dec_object (WObject obj) = Some (VObject obj)"
| "dec_object _ = None"

text \<open>\<^verbatim>\<open>len(x)\<close> and the items a \<^verbatim>\<open>for\<close> loop over \<^verbatim>\<open>x\<close> visits.\<close>

fun py_len :: "pyval \<Rightarrow> nat option" where
  "py_len (VList xs) = Some (length xs)"
| "py_len (VStr t) = Some (length t)"
| "py_len (VBytes t) = Some (length t)"
| "py_len _ = None"

fun py_iter :: "pyval \<Rightarrow> pyval list option" where
  "py_iter (VList xs) = Some xs"
| "py_iter (VStr t) = Some (map (\<lambda>c. VStr [c]) t)"
| "py_iter (VBytes t) = Some (map (\<lambda>c. VInt (of_char c)) t)"
| "py_iter _ = None"

subsection \<open>Statements\<close>

text \<open>
  One line that opens no block. Lines of the class file that are not part of a method body
  (imports, docstrings, the registry) are not given a meaning; an empty line and a comment
  do nothing.
\<close>

fun exec_stmt :: "pystmt \<Rightarrow> pystate \<Rightarrow> pyerror + pystate" where
  "exec_stmt (Text t) s = (if t = [] then Inr s else Inl Unsupported)"
| "exec_stmt (WriteCtorId i n) s = Inr (emit (WInt (of_nat i)) s)"
| "exec_stmt WriteVectorId s = Inr (emit (WInt 0x1cb5c415) s)"
| "exec_stmt (WriteLen v) s =
     (case lookup s v of
        Inl e \<Rightarrow> Inl e
      | Inr x \<Rightarrow> (case py_len x of
                    None \<Rightarrow> Inl TypeError
                  | Some n \<Rightarrow> Inr (emit (WInt (of_nat n)) s)))"
| "exec_stmt FlagsComment s = Inr s"
| "exec_stmt FlagsZero s = Inr (assign (Local ''flags'') (VInt 0) s)"
| "exec_stmt (FlagsOr i n) s =
     (case lookup s (Local ''flags'') of
        Inl e \<Rightarrow> Inl e
      | Inr (VInt f) \<Rightarrow>
          (case lookup s (Attr n) of
             Inl e \<Rightarrow> Inl e
           | Inr x \<Rightarrow>
               Inr (assign (Local ''flags'')
                      (VInt (f OR (if x \<noteq> VNone then push_bit i 1 else 0))) s))
      | Inr _ \<Rightarrow> Inl TypeError)"
| "exec_stmt (WriteInt v) s = write_var enc_int v s"
| "exec_stmt (WriteLong v) s = write_var enc_long v s"
| "exec_stmt (WriteLargeInt v b) s = write_var (enc_large b) v s"
| "exec_stmt (WriteDouble v) s = write_var enc_double v s"
| "exec_stmt (WriteString v) s = write_var enc_string v s"
| "exec_stmt (WriteBool v) s = write_var enc_bool v s"
| "exec_stmt WriteTrue s = Inr (emit (WInt 0x3fedd339) s)"
| "exec_stmt (WriteBytes v) s = write_var enc_bytes v s"
| "exec_stmt (WriteObject v) s = write_var enc_object v s"
| "exec_stmt ReadResult s = read_var dec_object (Attr ''result'') s"
| "exec_stmt Pass s = Inr s"
| "exec_stmt ReadVectorId s =
     (case read_value dec_int s of Inl e \<Rightarrow> Inl e | Inr (x, s') \<Rightarrow> Inr s')"
| "exec_stmt (InitList v) s = Inr (assign v (VList []) s)"
| "exec_stmt (Append v w) s =
     (case lookup s v of
        Inl e \<Rightarrow> Inl e
      | Inr (VList xs) \<Rightarrow>
          (case lookup s w of
             Inl e \<Rightarrow> Inl e
           | Inr x \<Rightarrow> Inr (assign v (VList (xs @ [x])) s))
      | Inr _ \<Rightarrow> Inl TypeError)"
| "exec_stmt (ReadInt v) s = read_var dec_int v s"
| "exec_stmt (ReadLong v) s = read_var dec_long v s"
| "exec_stmt (ReadLargeInt v b) s = read_var (dec_large b) v s"
| "exec_stmt (ReadDouble v) s = read_var dec_double v s"
| "exec_stmt (ReadString v) s = read_var dec_string v s"
| "exec_stmt (ReadBool v) s = read_var dec_bool v s"
| "exec_stmt (ReadTrue v) s = read_var dec_true v s"
| "exec_stmt (ReadBytes v) s = read_var dec_bytes v s"
| "exec_stmt (ReadObject v) s = read_var dec_object v s"
| "exec_stmt _ s = Inl Unsupported"

text \<open>
  A line that opens a block decides what happens to the body: it is skipped, run once, or
  run once per item with the loop variable set to the item.
\<close>

datatype control = Skip | Once | Each pyvar "pyval list"

fun control_of :: "pystmt \<Rightarrow> pystate \<Rightarrow> pyerror + control" where
  "control_of (IfNotNone v) s =
     (case lookup s v of
        Inl e \<Rightarrow> Inl e
      | Inr x \<Rightarrow> Inr (if x \<noteq> VNone then Once else Skip))"
| "control_of (IfFlagSet i) s =
     (case lookup s (Local ''flags'') of
        Inl e \<Rightarrow> Inl e
      | Inr (VInt f) \<Rightarrow> Inr (if f AND push_bit i 1 \<noteq> 0 then Once else Skip)
      | Inr _ \<Rightarrow> Inl TypeError)"
| "control_of (ForItemIn n v) s =
     (case lookup s v of
        Inl e \<Rightarrow> Inl e
      | Inr x \<Rightarrow> (case py_iter x of
                    None \<Rightarrow> Inl TypeError
                  | Some xs \<Rightarrow> Inr (Each (Local (n @ ''_item'')) xs)))"
| "control_of (ForRange v) s =
     (case lookup s v of
        Inl e \<Rightarrow> Inl e
      | Inr (VInt k) \<Rightarrow> Inr (Each (Local ''_'') (map (\<lambda>j. VInt (int j)) [0..<nat k]))
      | Inr _ \<Rightarrow> Inl TypeError)"
| "control_of _ s = Inl Unsupported"

subsection \<open>Blocks\<close>

text \<open>
  The builder indents after a line that ends in a colon, and \<^verbatim>\<open>end_block\<close> takes the
  indentation back and leaves an empty line; Python reads the indentation as nesting. A
  block needs at least one statement that is no comment and no empty line (the names of
  arguments are identifiers, so only a text line or the flags comment can be one).
\<close>

datatype pycode = Stmt pystmt | Block pystmt "pycode list"

definition opens_block :: "pystmt \<Rightarrow> bool" where
  "opens_block st = (render st \<noteq> [] \<and> last (render st) = CHR '':'')"

fun is_code :: "pycode \<Rightarrow> bool" where
  "is_code (Stmt (Text t)) = (t \<noteq> [] \<and> hd t \<noteq> CHR ''#'')"
| "is_code (Stmt FlagsComment) = False"
| "is_code c = True"

fun parse_ops ::
  "(pystmt \<times> pycode list) list \<Rightarrow> pycode list \<Rightarrow> bop list \<Rightarrow> pycode list option" where
  "parse_ops stack cur [] = (if stack = [] then Some (rev cur) else None)"
| "parse_ops stack cur (Writeln st # ops) =
     (if opens_block st then parse_ops ((st, cur) # stack) [] ops
      else parse_ops stack (Stmt st # cur) ops)"
| "parse_ops stack cur (EndBlock # ops) =
     (case stack of
        [] \<Rightarrow> None
      | (h, outer) # stack' \<Rightarrow>
          if list_ex is_code cur then parse_ops stack' (Block h (rev cur) # outer) ops
          else None)"
| "parse_ops stack cur (Write t # ops) = None"
| "parse_ops stack cur (IndentBy k # ops) = None"

fun exec :: "pycode \<Rightarrow> pystate \<Rightarrow> pyerror + pystate"
  and exec_block :: "pycode list \<Rightarrow> pystate \<Rightarrow> pyerror + pystate"
  and exec_for :: "pyvar \<Rightarrow> pycode list \<Rightarrow> pyval list \<Rightarrow> pystate \<Rightarrow> pyerror + pystate"
where
  "exec (Stmt st) s = exec_stmt st s"
| "exec (Block h body) s =
     (case control_of h s of
        Inl e \<Rightarrow> Inl e
      | Inr Skip \<Rightarrow> Inr s
      | Inr Once \<Rightarrow> exec_block body s
      | Inr (Each v xs) \<Rightarrow> exec_for v body xs s)"
| "exec_block [] s = Inr s"
| "exec_block (c # cs) s =
     (case exec c s of Inl e \<Rightarrow> Inl e | Inr s' \<Rightarrow> exec_block cs s')"
| "exec_for v body [] s = Inr s"
| "exec_for v body (x # xs) s =
     (case exec_block body (assign v x s) of
        Inl e \<Rightarrow> Inl e
      | Inr s' \<Rightarrow> exec_for v body xs s')"


definition call_method :: "bop list \<Rightarrow> pystate \<Rightarrow> pyerror + pystate" where
  "call_method ops s =
     (case parse_ops [] [] ops of
        Some [Block h body] \<Rightarrow>
          if h = DefOnSend \<or> h = DefOnResponse then exec_block body s else Inl SyntaxError
      | _ \<Rightarrow> Inl SyntaxError)"

section \<open>The generator, read off its recursion\<close>

text \<open>
  The lines of a block-structured piece of code, as the builder receives them.
\<close>

fun flatten :: "pycode \<Rightarrow> bop list" where
  "flatten (Stmt st) = [Writeln st]"
| "flatten (Block h body) = Writeln h # concat (map flatten body) @ [EndBlock]"

definition flatten_all :: "pycode list \<Rightarrow> bop list" where
  "flatten_all cs = concat (map flatten cs)"

text \<open>
  The code one call of \<^verbatim>\<open>write_onsend_code\<close> or \<^verbatim>\<open>write_onresponse_code\<close> emits,
  written without the store and with its nesting: the line for a type, the lines of the
  flags word, the code for a value that is no vector, and the code of an argument. The
  lemmas below show that the functions above emit exactly the lines of this code and hand
  the store back as they found it.
\<close>

definition send_stmt :: "string \<Rightarrow> pyvar \<Rightarrow> pystmt" where
  "send_stmt ty nm =
     (if ''int'' = ty then WriteInt nm
      else if ''long'' = ty then WriteLong nm
      else if ''int128'' = ty then WriteLargeInt nm 128
      else if ''int256'' = ty then WriteLargeInt nm 256
      else if ''double'' = ty then WriteDouble nm
      else if ''string'' = ty then WriteString nm
      else if ''Bool'' = ty then WriteBool nm
      else if ''true'' = ty then WriteTrue
      else if ''bytes'' = ty then WriteBytes nm
      else WriteObject nm)"

definition recv_stmt :: "string \<Rightarrow> pyvar \<Rightarrow> pystmt" where
  "recv_stmt ty nm =
     (if ''int'' = ty then ReadInt nm
      else if ''long'' = ty then ReadLong nm
      else if ''int128'' = ty then ReadLargeInt nm 128
      else if ''int256'' = ty then ReadLargeInt nm 256
      else if ''double'' = ty then ReadDouble nm
      else if ''string'' = ty then ReadString nm
      else if ''Bool'' = ty then ReadBool nm
      else if ''true'' = ty then ReadTrue nm
      else if ''bytes'' = ty then ReadBytes nm
      else ReadObject nm)"

definition guarded :: "bool \<Rightarrow> pystmt \<Rightarrow> pycode list \<Rightarrow> pycode list" where
  "guarded g h body = (if g then [Block h body] else body)"

definition flag_lines :: "argument list \<Rightarrow> pycode list" where
  "flag_lines args =
     map (\<lambda>flag. Stmt (FlagsOr (flag_index flag) (name flag))) (filter is_flag args)"

definition send_flags :: "argument list \<Rightarrow> pycode list" where
  "send_flags args =
     [Stmt FlagsComment, Stmt FlagsZero] @ flag_lines args
     @ [Stmt (WriteInt (Local ''flags'')), Stmt (Text [])]"

definition send_value :: "argument \<Rightarrow> argument list \<Rightarrow> pyvar \<Rightarrow> pycode list" where
  "send_value arg args nm =
     guarded (is_flag arg) (IfNotNone nm)
       (if flag_indicator arg then send_flags args
        else [Stmt (send_stmt (type arg) nm)])"

definition recv_value :: "argument \<Rightarrow> pyvar \<Rightarrow> pycode list" where
  "recv_value arg nm =
     guarded (is_flag arg) (IfFlagSet (flag_index arg))
       (if flag_indicator arg then [Stmt (ReadInt (Local ''flags'')), Stmt (Text [])]
        else [Stmt (recv_stmt (type arg) nm)])"

definition send_code :: "argument \<Rightarrow> argument list \<Rightarrow> pycode list" where
  "send_code arg args =
     (if generic_definition arg then []
      else if is_vector arg then
        guarded (is_flag arg) (IfNotNone (Attr (name arg)))
          [Stmt WriteVectorId, Stmt (WriteLen (Attr (name arg))),
           Block (ForItemIn (name arg) (Attr (name arg)))
             (send_value arg args (Local (name arg @ ''_item'')))]
      else send_value arg args (Attr (name arg)))"

definition recv_code :: "argument \<Rightarrow> pycode list" where
  "recv_code arg =
     (if generic_definition arg then []
      else if is_vector arg then
        guarded (is_flag arg) (IfFlagSet (flag_index arg))
          [Stmt ReadVectorId, Stmt (InitList (Attr (name arg))),
           Stmt (ReadInt (Attr (name arg @ ''_len''))),
           Block (ForRange (Attr (name arg @ ''_len'')))
             (recv_value arg (Local (name arg @ ''_item''))
              @ [Stmt (Append (Attr (name arg)) (Local (name arg @ ''_item'')))])]
      else recv_value arg (Attr (name arg)))"

text \<open>Code in which exactly the lines ending in a colon head a block, of no empty body.\<close>

fun wf_code :: "pycode \<Rightarrow> bool" where
  "wf_code (Stmt st) = (\<not> opens_block st)"
| "wf_code (Block h body) = (opens_block h \<and> list_ex is_code body \<and> list_all wf_code body)"

section \<open>Example definitions\<close>

text \<open>
  Schema lines used to exercise the generator: an argument with all switches off, and
  \<^verbatim>\<open>example#1a2b3c4d flags:# n:flags.0?int m:string = Example;\<close>,
  \<^verbatim>\<open>vec#aabbccdd items:Vector<int> = Vec;\<close> and
  \<^verbatim>\<open>pair#0badcafe flags:# a:flags.0?int b:flags.0?int = Pair;\<close>, where two optional
  arguments hang on the same bit.
\<close>

definition plain_arg :: "string \<Rightarrow> string \<Rightarrow> argument" where
  "plain_arg n t =
     \<lparr>name = n, type = t, is_vector = False, is_flag = False, flag_index = 0,
      flag_indicator = False, generic_definition = False, is_generic = False\<rparr>"

definition flags_arg :: argument where
  "flags_arg = (plain_arg ''flags'' ''#'')\<lparr>flag_indicator := True\<rparr>"

definition optional_arg :: "string \<Rightarrow> string \<Rightarrow> nat \<Rightarrow> argument" where
  "optional_arg n t i = (plain_arg n t)\<lparr>is_flag := True, flag_index := i\<rparr>"

definition example_tl :: tlobject where
  "example_tl =
     \<lparr>namespace = None, tl_name = ''example'', tl_id = 0x1a2b3c4d,
      tl_args = [flags_arg, optional_arg ''n'' ''int'' 0, plain_arg ''m'' ''string''],
      is_function = False,
      tl_repr = ''example#1a2b3c4d flags:# n:flags.0?int m:string = Example''\<rparr>"

definition vec_tl :: tlobject where
  "vec_tl =
     \<lparr>namespace = None, tl_name = ''vec'', tl_id = 0xaabbccdd,
      tl_args = [(plain_arg ''items'' ''int'')\<lparr>is_vector := True\<rparr>],
      is_function = False,
      tl_repr = ''vec#aabbccdd items:Vector<int> = Vec''\<rparr>"

definition pair_tl :: tlobject where
  "pair_tl =
     \<lparr>namespace = None, tl_name = ''pair'', tl_id = 0x0badcafe,
      tl_args = [flags_arg, optional_arg ''a'' ''int'' 0, optional_arg ''b'' ''int'' 0],
      is_function = False,
      tl_repr = ''pair#0badcafe flags:# a:flags.0?int b:flags.0?int = Pair''\<rparr>"

section \<open>Objects, schemas and the wire\<close>

text \<open>
  The arguments that become attributes of the generated class: \<^verbatim>\<open>__init__\<close> assigns
  \<^verbatim>\<open>self.name = name\<close> for each argument that is no flag indicator and no generic
  definition, after \<^verbatim>\<open>self.result = None\<close> in the class of a function.
\<close>

definition value_args :: "tlobject \<Rightarrow> argument list" where
  "value_args tlobject =
     filter (\<lambda>arg. \<not> flag_indicator arg \<and> \<not> generic_definition arg) (tl_args tlobject)"

definition new_object :: "tlobject \<Rightarrow> (string \<Rightarrow> pyval) \<Rightarrow> pyvar \<Rightarrow> pyval option" where
  "new_object tlobject val v =
     (case v of
        Attr n \<Rightarrow>
          if n \<in> set (map name (value_args tlobject)) then Some (val n)
          else if is_function tlobject \<and> n = ''result'' then Some VNone
          else None
      | Local n \<Rightarrow> None)"

text \<open>
  The state in which a method of a fresh object is called: the attributes as \<^verbatim>\<open>__init__\<close>
  set them, no local variable, nothing written yet, and the given items to read.
\<close>

definition object_state :: "tlobject \<Rightarrow> (string \<Rightarrow> pyval) \<Rightarrow> wire list \<Rightarrow> pystate" where
  "object_state tlobject val ws = \<lparr>vars = new_object tlobject val, written = [], unread = ws\<rparr>"

text \<open>The writer and the reader primitive that the generator picks for a type name.\<close>

definition encode_value :: "string \<Rightarrow> pyval \<Rightarrow> wire option" where
  "encode_value ty v =
     (if ''int'' = ty then enc_int v
      else if ''long'' = ty then enc_long v
      else if ''int128'' = ty then enc_large 128 v
      else if ''int256'' = ty then enc_large 256 v
      else if ''double'' = ty then enc_double v
      else if ''string'' = ty then enc_string v
      else if ''Bool'' = ty then enc_bool v
      else if ''true'' = ty then Some (WInt 0x3fedd339)
      else if ''bytes'' = ty then enc_bytes v
      else enc_object v)"

definition decode_value :: "string \<Rightarrow> wire \<Rightarrow> pyval option" where
  "decode_value ty w =
     (if ''int'' = ty then dec_int w
      else if ''long'' = ty then dec_long w
      else if ''int128'' = ty then dec_large 128 w
      else if ''int256'' = ty then dec_large 256 w
      else if ''double'' = ty then dec_double w
      else if ''string'' = ty then dec_string w
      else if ''Bool'' = ty then dec_bool w
      else if ''true'' = ty then dec_true w
      else if ''bytes'' = ty then dec_bytes w
      else dec_object w)"

text \<open>
  The values a type name admits: a signed integer of the width, a double, a string, a
  boolean, the constant \<^verbatim>\<open>True\<close> for the type \<^verbatim>\<open>true\<close>, a byte string, and for any other
  name a generated object.
\<close>

definition signed_in :: "nat \<Rightarrow> pyval \<Rightarrow> bool" where
  "signed_in b v = (case v of VInt x \<Rightarrow> - (2 ^ (b - 1)) \<le> x \<and> x < 2 ^ (b - 1) | _ \<Rightarrow> False)"

definition well_typed :: "string \<Rightarrow> pyval \<Rightarrow> bool" where
  "well_typed ty v =
     (if ''int'' = ty then signed_in 32 v
      else if ''long'' = ty then signed_in 64 v
      else if ''int128'' = ty then signed_in 128 v
      else if ''int256'' = ty then signed_in 256 v
      else if ''double'' = ty then (case v of VDouble d \<Rightarrow> True | _ \<Rightarrow> False)
      else if ''string'' = ty then (case v of VStr t \<Rightarrow> True | _ \<Rightarrow> False)
      else if ''Bool'' = ty then (case v of VBool b \<Rightarrow> True | _ \<Rightarrow> False)
      else if ''true'' = ty then v = VBool True
      else if ''bytes'' = ty then (case v of VBytes t \<Rightarrow> True | _ \<Rightarrow> False)
      else (case v of VObject obj \<Rightarrow> True | _ \<Rightarrow> False))"

text \<open>
  The flags word as the emitted lines compute it: starting from 0, bit \<^verbatim>\<open>flag_index\<close> is
  or-ed in for each flag argument whose attribute is not \<^verbatim>\<open>None\<close>.
\<close>

definition flags_value :: "argument list \<Rightarrow> (string \<Rightarrow> pyval) \<Rightarrow> int" where
  "flags_value args val =
     foldl (\<lambda>f flag. f OR (if val (name flag) \<noteq> VNone then push_bit (flag_index flag) 1 else 0))
       0 (filter is_flag args)"

text \<open>The items expected on the wire for one value, for a vector, and for one argument.\<close>

definition value_wire :: "string \<Rightarrow> pyval \<Rightarrow> wire list" where
  "value_wire ty v = (case encode_value ty v of None \<Rightarrow> [] | Some w \<Rightarrow> [w])"

definition vector_wire :: "string \<Rightarrow> pyval list \<Rightarrow> wire list" where
  "vector_wire ty xs =
     WInt 0x1cb5c415 # WInt (of_nat (length xs)) # concat (map (value_wire ty) xs)"

definition arg_wire :: "argument list \<Rightarrow> (string \<Rightarrow> pyval) \<Rightarrow> argument \<Rightarrow> wire list" where
  "arg_wire args val arg =
     (if generic_definition arg then []
      else if is_flag arg \<and> val (name arg) = VNone then []
      else if is_vector arg then
        (case val (name arg) of VList xs \<Rightarrow> vector_wire (type arg) xs | _ \<Rightarrow> [])
      else if flag_indicator arg then [WInt (of_int (flags_value args val))]
      else value_wire (type arg) (val (name arg)))"

text \<open>
  A schema line as the type language means it: the
  flags word is neither optional nor a vector nor a generic definition; a generic
  definition is not optional; the bit of an optional argument is one of the 32 bits of the
  flags word, which is read before the argument; not all arguments are generic
  definitions; and no attribute has the name that reading a vector \<^verbatim>\<open>x\<close> uses for its
  length, \<^verbatim>\<open>self.x_len\<close>.
\<close>

fun flags_follow :: "bool \<Rightarrow> argument list \<Rightarrow> bool" where
  "flags_follow seen [] = True"
| "flags_follow seen (arg # args) =
     ((is_flag arg \<longrightarrow> seen) \<and> flags_follow (seen \<or> flag_indicator arg) args)"

definition well_formed :: "tlobject \<Rightarrow> bool" where
  "well_formed tlobject =
     ((\<forall>arg \<in> set (tl_args tlobject).
            (flag_indicator arg \<longrightarrow>
               \<not> is_flag arg \<and> \<not> is_vector arg \<and> \<not> generic_definition arg)
            \<and> (generic_definition arg \<longrightarrow> \<not> is_flag arg)
            \<and> (is_flag arg \<longrightarrow> flag_index arg < 32))
      \<and> flags_follow False (tl_args tlobject)
      \<and> (tl_args tlobject = [] \<or> (\<exists>arg \<in> set (tl_args tlobject). \<not> generic_definition arg))
      \<and> (\<forall>arg \<in> set (value_args tlobject). \<forall>other \<in> set (value_args tlobject).
            is_vector arg \<longrightarrow> name other \<noteq> name arg @ ''_len''))"

text \<open>
  An assignment of the attributes that the wire can carry: an optional argument is
  \<^verbatim>\<open>None\<close> or has a value of its type, any other argument has a value of its type, a vector
  is a list of fewer than \<open>2\<^sup>3\<^sup>1\<close> values of the type.
\<close>

definition arg_admits :: "argument \<Rightarrow> pyval \<Rightarrow> bool" where
  "arg_admits arg v =
     (if is_flag arg \<and> v = VNone then True
      else if is_vector arg then
        (case v of
           VList xs \<Rightarrow> length xs < 2 ^ 31 \<and> list_all (well_typed (type arg)) xs
         | _ \<Rightarrow> False)
      else well_typed (type arg) v)"

definition admissible :: "tlobject \<Rightarrow> (string \<Rightarrow> pyval) \<Rightarrow> bool" where
  "admissible tlobject val =
     (\<forall>arg \<in> set (value_args tlobject). arg_admits arg (val (name arg)))"

text \<open>Optional arguments on the same bit of the flags word are present or absent together.\<close>

definition shared_flags_agree :: "tlobject \<Rightarrow> (string \<Rightarrow> pyval) \<Rightarrow> bool" where
  "shared_flags_agree tlobject val =
     (\<forall>arg \<in> set (tl_args tlobject). \<forall>other \<in> set (tl_args tlobject).
        is_flag arg \<and> is_flag other \<and> flag_index arg = flag_index other \<longrightarrow>
        (val (name arg) = VNone) = (val (name other) = VNone))"

text \<open>
  Whether an argument has a value on the wire under an assignment, and the attributes
  that reading it assigns.
\<close>

definition on_wire :: "(string \<Rightarrow> pyval) \<Rightarrow> argument \<Rightarrow> bool" where
  "on_wire val arg =
     (\<not> generic_definition arg \<and> \<not> flag_indicator arg
      \<and> \<not> (is_flag arg \<and> val (name arg) = VNone))"

definition assigned :: "(string \<Rightarrow> pyval) \<Rightarrow> argument \<Rightarrow> string set" where
  "assigned val arg =
     (if on_wire val arg
      then (if is_vector arg then {name arg, name arg @ ''_len''} else {name arg})
      else {})"

text \<open>The lines of the dictionary in \<^verbatim>\<open>tl/all_tlobjects.py\<close>.\<close>

fun is_registry_entry :: "bop \<Rightarrow> bool" where
  "is_registry_entry (Writeln (RegistryEntry i m c)) = True"
| "is_registry_entry b = False"

subsection \<open>More example data\<close>

text \<open>
  \<^verbatim>\<open>twin#1a2b3c4d = Twin;\<close> repeats the id of \<^verbatim>\<open>example\<close>. In
  \<^verbatim>\<open>odd#0000beef n:flags.40?int flags:# x:Mystery = Odd;\<close> the optional argument comes
  before the flags word, its bit is none of the 32, and no type \<^verbatim>\<open>Mystery\<close> is known.
  \<^verbatim>\<open>ping#7abe77ec = Pong;\<close> is a function, \<^verbatim>\<open>mark#0000cafe sure:true = Mark;\<close> has an
  argument of the type \<^verbatim>\<open>true\<close>.
\<close>

definition twin_tl :: tlobject where
  "twin_tl =
     \<lparr>namespace = None, tl_name = ''twin'', tl_id = 0x1a2b3c4d, tl_args = [],
      is_function = False, tl_repr = ''twin#1a2b3c4d = Twin''\<rparr>"

definition odd_tl :: tlobject where
  "odd_tl =
     \<lparr>namespace = None, tl_name = ''odd'', tl_id = 0xbeef,
      tl_args = [optional_arg ''n'' ''int'' 40, flags_arg, plain_arg ''x'' ''Mystery''],
      is_function = False,
      tl_repr = ''odd#0000beef n:flags.40?int flags:# x:Mystery = Odd''\<rparr>"

definition ping_tl :: tlobject where
  "ping_tl =
     \<lparr>namespace = None, tl_name = ''ping'', tl_id = 0x7abe77ec, tl_args = [],
      is_function = True, tl_repr = ''ping#7abe77ec = Pong''\<rparr>"

definition mark_tl :: tlobject where
  "mark_tl =
     \<lparr>namespace = None, tl_name = ''mark'', tl_id = 0xcafe,
      tl_args = [plain_arg ''sure'' ''true''],
      is_function = False, tl_repr = ''mark#0000cafe sure:true = Mark''\<rparr>"

text \<open>Assignments of attributes: all \<^verbatim>\<open>None\<close>, and single values by name.\<close>

definition no_values :: "string \<Rightarrow> pyval" where
  "no_values n = VNone"


section \<open>Properties\<close>

subsection \<open>The generator leaves the arguments as they were\<close>

lemma map_filter_update:
  "i < length xs \<Longrightarrow> p y = p (xs ! i) \<Longrightarrow> f y = f (xs ! i) \<Longrightarrow>
   map f (filter p (xs[i := y])) = map f (filter p xs)"
proof (induction xs arbitrary: i)
  case Nil
  then show ?case by simp
next
  case (Cons x xs)
  then show ?case by (cases i) auto
qed

lemma send_flags_update:
  "i < length args \<Longrightarrow>
   send_flags (args[i := (args ! i)\<lparr>is_vector := b\<rparr>]) = send_flags args"
  unfolding send_flags_def flag_lines_def by (simp add: map_filter_update)

lemma flatten_all_simps [simp]:
  "flatten_all [] = []"
  "flatten_all (c # cs) = flatten c @ flatten_all cs"
  "flatten_all (cs @ ds) = flatten_all cs @ flatten_all ds"
  by (simp_all add: flatten_all_def)

lemma concat_flatten [simp]: "concat (map flatten cs) = flatten_all cs"
  by (simp add: flatten_all_def)

lemma map_nth_fun: "map (\<lambda>i. f (xs ! i)) [0..<length xs] = map f xs"
proof -
  have "map (\<lambda>i. f (xs ! i)) [0..<length xs] = map f (map ((!) xs) [0..<length xs])"
    by (simp add: comp_def)
  also have "\<dots> = map f xs"
    by (simp only: map_nth)
  finally show ?thesis .
qed

lemma flatten_all_concat: "flatten_all (concat css) = concat (map flatten_all css)"
  by (induction css) simp_all

lemma flatten_all_Stmts: "flatten_all (map Stmt sts) = map Writeln sts"
  by (induction sts) simp_all

lemma flatten_send_flags:
  "flatten_all (send_flags args) =
     [Writeln FlagsComment, Writeln FlagsZero]
     @ map (\<lambda>flag. Writeln (FlagsOr (flag_index flag) (name flag))) (filter is_flag args)
     @ [Writeln (WriteInt (Local ''flags'')), Blank]"
proof -
  have "flatten_all (flag_lines args)
          = map (\<lambda>flag. Writeln (FlagsOr (flag_index flag) (name flag))) (filter is_flag args)"
    unfolding flag_lines_def by (induction args) simp_all
  then show ?thesis by (simp add: send_flags_def)
qed

lemma write_onsend_code_plain:
  assumes "i < length args" and "\<not> is_vector (args ! i)"
    and "\<not> generic_definition (args ! i)"
  shows "write_onsend_code args i (Some nm) = (flatten_all (send_value (args ! i) args nm), args)"
    and "write_onsend_code args i None
           = (flatten_all (send_value (args ! i) args (Attr (name (args ! i)))), args)"
  using assms
  by (simp_all add: write_onsend_code.simps [of args i] Let_def send_value_def guarded_def
        flatten_send_flags send_stmt_def)

lemma write_onsend_code_eq:
  assumes "i < length args"
  shows "write_onsend_code args i None = (flatten_all (send_code (args ! i) args), args)"
proof (cases "generic_definition (args ! i)")
  case True
  with assms show ?thesis
    by (simp add: write_onsend_code.simps [of args i] send_code_def)
next
  case gen: False
  show ?thesis
  proof (cases "is_vector (args ! i)")
    case False
    with assms gen show ?thesis
      by (simp add: write_onsend_code_plain send_code_def)
  next
    case True
    let ?args1 = "args[i := (args ! i)\<lparr>is_vector := False\<rparr>]"
    have inner: "write_onsend_code ?args1 i (Some (Local (name (args ! i) @ ''_item'')))
                   = (flatten_all (send_value (?args1 ! i) ?args1
                        (Local (name (args ! i) @ ''_item''))), ?args1)"
      using assms gen by (intro write_onsend_code_plain) simp_all
    have sv: "send_value ((args ! i)\<lparr>is_vector := False\<rparr>) ?args1 nm
                = send_value (args ! i) args nm" for nm
      using assms by (simp add: send_value_def send_flags_update)
    have restored: "args[i := (args ! i)\<lparr>is_vector := True\<rparr>] = args"
      using assms True by (simp add: list_update_same_conv)
    show ?thesis
      using assms gen True
      by (simp add: write_onsend_code.simps [of args i None] Let_def inner sv restored
            send_code_def guarded_def)
  qed
qed

lemma write_onresponse_code_plain:
  assumes "i < length args" and "\<not> is_vector (args ! i)"
    and "\<not> generic_definition (args ! i)"
  shows "write_onresponse_code args i (Some nm) = (flatten_all (recv_value (args ! i) nm), args)"
    and "write_onresponse_code args i None
           = (flatten_all (recv_value (args ! i) (Attr (name (args ! i)))), args)"
  using assms
  by (simp_all add: write_onresponse_code.simps [of args i] Let_def recv_value_def guarded_def
        recv_stmt_def)

lemma write_onresponse_code_eq:
  assumes "i < length args"
  shows "write_onresponse_code args i None = (flatten_all (recv_code (args ! i)), args)"
proof (cases "generic_definition (args ! i)")
  case True
  with assms show ?thesis
    by (simp add: write_onresponse_code.simps [of args i] recv_code_def)
next
  case gen: False
  show ?thesis
  proof (cases "is_vector (args ! i)")
    case False
    with assms gen show ?thesis
      by (simp add: write_onresponse_code_plain recv_code_def)
  next
    case True
    let ?args1 = "args[i := (args ! i)\<lparr>is_vector := False\<rparr>]"
    have inner: "write_onresponse_code ?args1 i (Some (Local (name (args ! i) @ ''_item'')))
                   = (flatten_all (recv_value (?args1 ! i)
                        (Local (name (args ! i) @ ''_item''))), ?args1)"
      using assms gen by (intro write_onresponse_code_plain) simp_all
    have rv: "recv_value ((args ! i)\<lparr>is_vector := False\<rparr>) nm = recv_value (args ! i) nm"
      for nm
      using assms by (simp add: recv_value_def)
    have restored: "args[i := (args ! i)\<lparr>is_vector := True\<rparr>] = args"
      using assms True by (simp add: list_update_same_conv)
    show ?thesis
      using assms gen True
      by (simp add: write_onresponse_code.simps [of args i None] Let_def inner rv restored
            recv_code_def guarded_def)
  qed
qed

lemma for_each_arg_eq:
  assumes "\<And>args i. i < length args \<Longrightarrow> f args i None = (g (args ! i) args, args)"
    and "\<forall>i \<in> set js. i < length args"
  shows "for_each_arg f js args = (concat (map (\<lambda>i. g (args ! i) args) js), args)"
  using assms(2)
proof (induction js)
  case Nil
  then show ?case by simp
next
  case (Cons j js)
  then show ?case by (simp add: assms(1))
qed

lemma for_each_send:
  "for_each_arg write_onsend_code [0..<length args] args
     = (flatten_all (concat (map (\<lambda>arg. send_code arg args) args)), args)"
proof -
  have "for_each_arg write_onsend_code [0..<length args] args
          = (concat (map (\<lambda>i. flatten_all (send_code (args ! i) args)) [0..<length args]), args)"
    by (rule for_each_arg_eq) (simp_all add: write_onsend_code_eq)
  also have "map (\<lambda>i. flatten_all (send_code (args ! i) args)) [0..<length args]
               = map (\<lambda>arg. flatten_all (send_code arg args)) args"
    by (rule map_nth_fun)
  finally show ?thesis
    by (simp add: flatten_all_concat comp_def)
qed

lemma for_each_recv:
  "for_each_arg write_onresponse_code [0..<length args] args
     = (flatten_all (concat (map recv_code args)), args)"
proof -
  have "for_each_arg write_onresponse_code [0..<length args] args
          = (concat (map (\<lambda>i. flatten_all (recv_code (args ! i))) [0..<length args]), args)"
    by (rule for_each_arg_eq [where g = "\<lambda>arg args. flatten_all (recv_code arg)"])
       (simp_all add: write_onresponse_code_eq)
  also have "map (\<lambda>i. flatten_all (recv_code (args ! i))) [0..<length args]
               = map (\<lambda>arg. flatten_all (recv_code arg)) args"
    by (rule map_nth_fun)
  finally show ?thesis
    by (simp add: flatten_all_concat comp_def)
qed

lemmas example_defs =
  plain_arg_def flags_arg_def optional_arg_def example_tl_def vec_tl_def pair_tl_def

subsection \<open>The methods as a whole\<close>

lemma on_send_code_eq:
  "on_send_code tlobject =
     ([Writeln DefOnSend, Writeln (WriteCtorId (tl_id tlobject) (tl_name tlobject))]
      @ flatten_all (concat (map (\<lambda>arg. send_code arg (tl_args tlobject)) (tl_args tlobject)))
      @ [EndBlock],
      tl_args tlobject)"
  by (simp add: on_send_code_def for_each_send)

lemma on_response_code_eq:
  "on_response_code tlobject =
     ([Writeln DefOnResponse]
      @ (if is_function tlobject then [Writeln ReadResult]
         else if tl_args tlobject \<noteq> [] then flatten_all (concat (map recv_code (tl_args tlobject)))
         else [Writeln Pass])
      @ [EndBlock],
      tl_args tlobject)"
  by (simp add: on_response_code_def for_each_recv)

subsection \<open>The parameters of the constructor\<close>

lemma insort_key_front:
  "\<not> f x \<Longrightarrow> insort_key f x ys = x # ys" for f :: "'a \<Rightarrow> bool"
  by (cases ys) simp_all

lemma insort_key_behind:
  "f x \<Longrightarrow> \<forall>y \<in> set as. \<not> f y \<Longrightarrow> insort_key f x (as @ bs) = as @ insort_key f x bs"
  for f :: "'a \<Rightarrow> bool"
  by (induction as) simp_all

lemma insort_key_all_set:
  "f x \<Longrightarrow> \<forall>y \<in> set bs. f y \<Longrightarrow> insort_key f x bs = x # bs" for f :: "'a \<Rightarrow> bool"
  by (cases bs) simp_all

lemma sort_key_bool:
  "sort_key f xs = filter (\<lambda>x. \<not> f x) xs @ filter f xs" for f :: "'a \<Rightarrow> bool"
proof (induction xs)
  case Nil
  then show ?case by simp
next
  case (Cons x xs)
  show ?case
  proof (cases "f x")
    case True
    then show ?thesis
      using Cons by (simp add: insort_key_behind insort_key_all_set)
  next
    case False
    then show ?thesis
      using Cons by (simp add: insort_key_front)
  qed
qed

lemma generate_class_eq:
  "generate_class tlobject =
     (class_init tlobject @ fst (on_send_code tlobject) @ fst (on_response_code tlobject),
      tlobject)"
  by (simp add: generate_class_def on_send_code_eq on_response_code_eq)

lemma init_params_eq:
  "init_params tlobject =
     map name
       (filter (\<lambda>arg. \<not> is_flag arg)
          (filter (\<lambda>arg. \<not> flag_indicator arg \<and> \<not> generic_definition arg)
             (tl_args tlobject)))
     @ map (\<lambda>arg. name arg @ ''=None'')
         (filter is_flag
            (filter (\<lambda>arg. \<not> flag_indicator arg \<and> \<not> generic_definition arg)
               (tl_args tlobject)))"
proof -
  have "filter (\<lambda>arg. \<not> flag_indicator arg \<and> \<not> generic_definition arg)
          (filter (\<lambda>arg. \<not> is_flag arg)
             (filter (\<lambda>arg. \<not> flag_indicator arg) (tl_args tlobject)))
        = filter (\<lambda>arg. \<not> is_flag arg)
            (filter (\<lambda>arg. \<not> flag_indicator arg \<and> \<not> generic_definition arg)
               (tl_args tlobject))"
    by (auto intro: filter_cong)
  moreover have "filter (\<lambda>arg. \<not> flag_indicator arg \<and> \<not> generic_definition arg)
          (filter is_flag (filter (\<lambda>arg. \<not> flag_indicator arg) (tl_args tlobject)))
        = filter is_flag
            (filter (\<lambda>arg. \<not> flag_indicator arg \<and> \<not> generic_definition arg)
               (tl_args tlobject))"
    by (auto intro: filter_cong)
  ultimately show ?thesis
    by (simp add: init_params_def sort_key_bool Let_def filter_map comp_def
          cong: map_cong)
qed

lemma class_init_line_7:
  "class_init tlobject ! 7 =
     Writeln (Text (if init_params tlobject \<noteq> []
                    then ''def __init__(self, '' @ join '', '' (init_params tlobject) @ ''):''
                    else ''def __init__(self):''))"
  by (simp add: class_init_def Let_def)

lemma length_class_init: "7 < length (class_init tlobject)"
  by (simp add: class_init_def Let_def)

text \<open>
  C9. The file of a class has the line \<^verbatim>\<open>def __init__(self, \<dots>):\<close> as its eighth line, and
  the parameters on it, joined by a comma and a blank, leave out the flag indicator and
  the generic definitions; of the remaining arguments they name those that are no flag
  first and then the flags, each group in declaration order, a flag with the default
  \<^verbatim>\<open>=None\<close> (with no such argument the line is \<^verbatim>\<open>def __init__(self):\<close>). The steps of
  \<^verbatim>\<open>on_send\<close> and \<^verbatim>\<open>on_response\<close> keep the declaration order of all arguments.
\<close>

theorem init_params_reordered:
  "(let kept = filter (\<lambda>arg. \<not> flag_indicator arg \<and> \<not> generic_definition arg)
                 (tl_args tlobject);
        params = map name (filter (\<lambda>arg. \<not> is_flag arg) kept)
                 @ map (\<lambda>arg. name arg @ ''=None'') (filter is_flag kept)
    in fst (generate_class tlobject) ! 7 =
         Writeln (Text (if params \<noteq> []
                        then ''def __init__(self, '' @ join '', '' params @ ''):''
                        else ''def __init__(self):'')))
   \<and> fst (on_send_code tlobject) =
       [Writeln DefOnSend, Writeln (WriteCtorId (tl_id tlobject) (tl_name tlobject))]
       @ concat (map (\<lambda>arg. flatten_all (send_code arg (tl_args tlobject)))
           (tl_args tlobject))
       @ [EndBlock]
   \<and> (\<not> is_function tlobject \<and> tl_args tlobject \<noteq> [] \<longrightarrow>
        fst (on_response_code tlobject) =
          [Writeln DefOnResponse]
          @ concat (map (\<lambda>arg. flatten_all (recv_code arg)) (tl_args tlobject))
          @ [EndBlock])"
proof -
  have "fst (generate_class tlobject) ! 7 = class_init tlobject ! 7"
    using length_class_init [of tlobject] by (simp add: generate_class_eq nth_append)
  then have "let kept = filter (\<lambda>arg. \<not> flag_indicator arg \<and> \<not> generic_definition arg)
                 (tl_args tlobject);
        params = map name (filter (\<lambda>arg. \<not> is_flag arg) kept)
                 @ map (\<lambda>arg. name arg @ ''=None'') (filter is_flag kept)
    in fst (generate_class tlobject) ! 7 =
         Writeln (Text (if params \<noteq> []
                        then ''def __init__(self, '' @ join '', '' params @ ''):''
                        else ''def __init__(self):''))"
    unfolding Let_def class_init_line_7 init_params_eq by simp
  moreover have "fst (on_send_code tlobject) =
       [Writeln DefOnSend, Writeln (WriteCtorId (tl_id tlobject) (tl_name tlobject))]
       @ concat (map (\<lambda>arg. flatten_all (send_code arg (tl_args tlobject)))
           (tl_args tlobject))
       @ [EndBlock]"
    by (simp add: on_send_code_eq flatten_all_concat comp_def)
  moreover have "\<not> is_function tlobject \<and> tl_args tlobject \<noteq> [] \<longrightarrow>
        fst (on_response_code tlobject) =
          [Writeln DefOnResponse]
          @ concat (map (\<lambda>arg. flatten_all (recv_code arg)) (tl_args tlobject))
          @ [EndBlock]"
    by (simp add: on_response_code_eq flatten_all_concat comp_def)
  ultimately show ?thesis
    by blast
qed

theorem init_params_reordered_witness:
  "fst (generate_class example_tl) ! 7 = Writeln (Text ''def __init__(self, m, n=None):'')
   \<and> \<not> is_function example_tl \<and> tl_args example_tl \<noteq> []
   \<and> fst (on_response_code example_tl) =
       [Writeln DefOnResponse, Writeln (ReadInt (Local ''flags'')), Blank,
        Writeln (IfFlagSet 0), Writeln (ReadInt (Attr ''n'')), EndBlock,
        Writeln (ReadString (Attr ''m'')), EndBlock]"
proof -
  have pre: "\<not> is_function example_tl \<and> tl_args example_tl \<noteq> []"
    by (simp add: example_defs)
  have line: "(let kept = filter (\<lambda>arg. \<not> flag_indicator arg \<and> \<not> generic_definition arg)
                 (tl_args example_tl);
        params = map name (filter (\<lambda>arg. \<not> is_flag arg) kept)
                 @ map (\<lambda>arg. name arg @ ''=None'') (filter is_flag kept)
    in Writeln (Text (if params \<noteq> []
                        then ''def __init__(self, '' @ join '', '' params @ ''):''
                        else ''def __init__(self):'')))
    = Writeln (Text ''def __init__(self, m, n=None):'')"
    by (simp add: example_defs Let_def)
  have code: "[Writeln DefOnResponse]
          @ concat (map (\<lambda>arg. flatten_all (recv_code arg)) (tl_args example_tl))
          @ [EndBlock] =
       [Writeln DefOnResponse, Writeln (ReadInt (Local ''flags'')), Blank,
        Writeln (IfFlagSet 0), Writeln (ReadInt (Attr ''n'')), EndBlock,
        Writeln (ReadString (Attr ''m'')), EndBlock]"
    by (simp add: example_defs recv_code_def recv_value_def recv_stmt_def guarded_def)
  from init_params_reordered [of example_tl] pre
  have "fst (generate_class example_tl) ! 7 = Writeln (Text ''def __init__(self, m, n=None):'')"
    and "fst (on_response_code example_tl) =
       [Writeln DefOnResponse, Writeln (ReadInt (Local ''flags'')), Blank,
        Writeln (IfFlagSet 0), Writeln (ReadInt (Attr ''n'')), EndBlock,
        Writeln (ReadString (Attr ''m'')), EndBlock]"
    unfolding code using line by (simp_all add: Let_def)
  with pre show ?thesis
    by blast
qed

subsection \<open>The emitted lines nest as they are meant to\<close>

lemma opens_block_simps [simp]:
  "opens_block DefOnSend" "opens_block DefOnResponse"
  "opens_block (IfNotNone v)" "opens_block (IfFlagSet i)"
  "opens_block (ForItemIn n v)" "opens_block (ForRange v)"
  "\<not> opens_block (Text [])"
  "\<not> opens_block (WriteCtorId i n)" "\<not> opens_block WriteVectorId"
  "\<not> opens_block (WriteLen v)" "\<not> opens_block FlagsComment" "\<not> opens_block FlagsZero"
  "\<not> opens_block (FlagsOr i n)" "\<not> opens_block (WriteInt v)" "\<not> opens_block (WriteLong v)"
  "\<not> opens_block (WriteLargeInt v b)" "\<not> opens_block (WriteDouble v)"
  "\<not> opens_block (WriteString v)" "\<not> opens_block (WriteBool v)" "\<not> opens_block WriteTrue"
  "\<not> opens_block (WriteBytes v)" "\<not> opens_block (WriteObject v)"
  "\<not> opens_block ReadResult" "\<not> opens_block Pass" "\<not> opens_block ReadVectorId"
  "\<not> opens_block (InitList v)" "\<not> opens_block (Append v w)" "\<not> opens_block (ReadInt v)"
  "\<not> opens_block (ReadLong v)" "\<not> opens_block (ReadLargeInt v b)"
  "\<not> opens_block (ReadDouble v)" "\<not> opens_block (ReadString v)"
  "\<not> opens_block (ReadBool v)" "\<not> opens_block (ReadTrue v)" "\<not> opens_block (ReadBytes v)"
  "\<not> opens_block (ReadObject v)"
  by (simp_all add: opens_block_def)

lemma send_stmt_plain [simp]:
  "\<not> opens_block (send_stmt ty nm)" "is_code (Stmt (send_stmt ty nm))"
  by (simp_all add: send_stmt_def)

lemma recv_stmt_plain [simp]:
  "\<not> opens_block (recv_stmt ty nm)" "is_code (Stmt (recv_stmt ty nm))"
  by (simp_all add: recv_stmt_def)

lemma parse_flatten_all_aux:
  assumes "\<And>c stack cur rest. c \<in> set cs \<Longrightarrow> wf_code c \<Longrightarrow>
             parse_ops stack cur (flatten c @ rest) = parse_ops stack (c # cur) rest"
    and "list_all wf_code cs"
  shows "parse_ops stack cur (flatten_all cs @ rest) = parse_ops stack (rev cs @ cur) rest"
  using assms
proof (induction cs arbitrary: cur)
  case Nil
  then show ?case by simp
next
  case (Cons c cs)
  then show ?case by simp
qed

lemma parse_flatten:
  "wf_code c \<Longrightarrow> parse_ops stack cur (flatten c @ rest) = parse_ops stack (c # cur) rest"
proof (induction c arbitrary: stack cur rest)
  case (Stmt st)
  then show ?case by simp
next
  case (Block h body)
  have "parse_ops ((h, cur) # stack) [] (flatten_all body @ EndBlock # rest)
          = parse_ops ((h, cur) # stack) (rev body @ []) (EndBlock # rest)"
    using Block by (intro parse_flatten_all_aux) simp_all
  with Block.prems show ?case
    by (simp add: list_ex_iff)
qed

lemma parse_flatten_all:
  "list_all wf_code cs \<Longrightarrow>
   parse_ops stack cur (flatten_all cs @ rest) = parse_ops stack (rev cs @ cur) rest"
  by (rule parse_flatten_all_aux) (simp_all add: parse_flatten)

lemma wf_guarded:
  "opens_block h \<Longrightarrow> list_ex is_code body \<Longrightarrow> list_all wf_code body \<Longrightarrow>
   list_all wf_code (guarded g h body)"
  by (simp add: guarded_def)

lemma wf_flag_lines: "list_all wf_code (flag_lines args)"
  by (simp add: flag_lines_def list_all_iff)

lemma wf_send_value: "list_all wf_code (send_value arg args nm)"
  "list_ex is_code (send_value arg args nm)"
  by (simp_all add: send_value_def guarded_def send_flags_def wf_flag_lines)

lemma wf_recv_value: "list_all wf_code (recv_value arg nm)"
  "list_ex is_code (recv_value arg nm)"
  by (simp_all add: recv_value_def guarded_def)

lemma wf_send_code: "list_all wf_code (send_code arg args)"
  by (simp add: send_code_def guarded_def wf_send_value)

lemma wf_recv_code: "list_all wf_code (recv_code arg)"
  by (simp add: recv_code_def guarded_def wf_recv_value)

lemma wf_concat: "(\<And>cs. cs \<in> set css \<Longrightarrow> list_all wf_code cs) \<Longrightarrow> list_all wf_code (concat css)"
  by (induction css) simp_all

lemma parse_on_send_code:
  "parse_ops [] [] (fst (on_send_code tlobject)) =
     Some [Block DefOnSend
             (Stmt (WriteCtorId (tl_id tlobject) (tl_name tlobject))
              # concat (map (\<lambda>arg. send_code arg (tl_args tlobject)) (tl_args tlobject)))]"
proof -
  let ?cs = "concat (map (\<lambda>arg. send_code arg (tl_args tlobject)) (tl_args tlobject))"
  have "list_all wf_code ?cs"
    by (rule wf_concat) (auto simp: wf_send_code)
  then have "parse_ops [(DefOnSend, [])]
               [Stmt (WriteCtorId (tl_id tlobject) (tl_name tlobject))]
               (flatten_all ?cs @ [EndBlock])
             = parse_ops [(DefOnSend, [])]
                 (rev ?cs @ [Stmt (WriteCtorId (tl_id tlobject) (tl_name tlobject))]) [EndBlock]"
    by (rule parse_flatten_all)
  then show ?thesis
    by (simp add: on_send_code_eq)
qed

lemma is_code_recv_code:
  "\<not> generic_definition arg \<Longrightarrow> list_ex is_code (recv_code arg)"
  by (simp add: recv_code_def guarded_def wf_recv_value)

lemma parse_on_response_code:
  assumes "is_function tlobject \<or> tl_args tlobject = []
           \<or> (\<exists>arg \<in> set (tl_args tlobject). \<not> generic_definition arg)"
  shows "parse_ops [] [] (fst (on_response_code tlobject)) =
     Some [Block DefOnResponse
             (if is_function tlobject then [Stmt ReadResult]
              else if tl_args tlobject \<noteq> [] then concat (map recv_code (tl_args tlobject))
              else [Stmt Pass])]"
proof (cases "is_function tlobject \<or> tl_args tlobject = []")
  case True
  then show ?thesis
    by (auto simp: on_response_code_eq)
next
  case False
  let ?cs = "concat (map recv_code (tl_args tlobject))"
  from False assms obtain arg where arg: "arg \<in> set (tl_args tlobject)"
    "\<not> generic_definition arg"
    by auto
  then have "list_ex is_code (recv_code arg)"
    by (simp add: is_code_recv_code)
  with arg(1) have code: "list_ex is_code ?cs"
    by (auto simp: list_ex_iff)
  have "list_all wf_code ?cs"
    by (rule wf_concat) (auto simp: wf_recv_code)
  then have "parse_ops [(DefOnResponse, [])] [] (flatten_all ?cs @ [EndBlock])
             = parse_ops [(DefOnResponse, [])] (rev ?cs @ []) [EndBlock]"
    by (rule parse_flatten_all)
  with False code show ?thesis
    by (simp add: on_response_code_eq list_ex_iff)
qed

lemma call_on_send_code:
  "call_method (fst (on_send_code tlobject)) s =
     exec_block
       (Stmt (WriteCtorId (tl_id tlobject) (tl_name tlobject))
        # concat (map (\<lambda>arg. send_code arg (tl_args tlobject)) (tl_args tlobject))) s"
  by (simp add: call_method_def parse_on_send_code)

lemma call_on_response_code:
  assumes "is_function tlobject \<or> tl_args tlobject = []
           \<or> (\<exists>arg \<in> set (tl_args tlobject). \<not> generic_definition arg)"
  shows "call_method (fst (on_response_code tlobject)) s =
     exec_block
       (if is_function tlobject then [Stmt ReadResult]
        else if tl_args tlobject \<noteq> [] then concat (map recv_code (tl_args tlobject))
        else [Stmt Pass]) s"
  by (simp add: call_method_def parse_on_response_code [OF assms])

subsection \<open>The methods of a TLObject without arguments\<close>

lemmas more_example_defs = twin_tl_def odd_tl_def ping_tl_def mark_tl_def

text \<open>
  C10. For a TLObject that is no function and has no arguments, the emitted
  \<^verbatim>\<open>on_response\<close> is the single statement \<^verbatim>\<open>pass\<close>, and calling it leaves the state, the
  reader included, as it was; the emitted \<^verbatim>\<open>on_send\<close> is the single statement that writes
  the constructor id, and calling it writes that one 32-bit integer and nothing else.
\<close>

theorem no_arguments_methods:
  assumes "\<not> is_function tlobject" and "tl_args tlobject = []"
  shows "fst (on_response_code tlobject) = [Writeln DefOnResponse, Writeln Pass, EndBlock]
    \<and> call_method (fst (on_response_code tlobject)) s = Inr s
    \<and> fst (on_send_code tlobject) =
        [Writeln DefOnSend, Writeln (WriteCtorId (tl_id tlobject) (tl_name tlobject)), EndBlock]
    \<and> call_method (fst (on_send_code tlobject)) s =
        Inr (s\<lparr>written := written s @ [WInt (of_nat (tl_id tlobject))]\<rparr>)"
proof -
  have "call_method (fst (on_response_code tlobject)) s = Inr s"
    using assms by (simp add: call_on_response_code)
  moreover have "call_method (fst (on_send_code tlobject)) s =
        Inr (s\<lparr>written := written s @ [WInt (of_nat (tl_id tlobject))]\<rparr>)"
    using assms by (simp add: call_on_send_code emit_def)
  ultimately show ?thesis
    using assms by (simp add: on_send_code_eq on_response_code_eq)
qed

theorem no_arguments_methods_witness:
  "\<not> is_function twin_tl \<and> tl_args twin_tl = []
   \<and> call_method (fst (on_response_code twin_tl)) (object_state twin_tl no_values [WInt 7])
       = Inr (object_state twin_tl no_values [WInt 7])
   \<and> call_method (fst (on_send_code twin_tl)) (object_state twin_tl no_values [WInt 7])
       = Inr ((object_state twin_tl no_values [WInt 7])\<lparr>written := [WInt 0x1a2b3c4d]\<rparr>)"
proof -
  have pre: "\<not> is_function twin_tl" "tl_args twin_tl = []"
    by (simp_all add: twin_tl_def)
  have val: "written (object_state twin_tl no_values [WInt 7]) @ [WInt (of_nat (tl_id twin_tl))]
               = [WInt 0x1a2b3c4d]"
    by (simp add: twin_tl_def object_state_def)
  from no_arguments_methods [OF pre, of "object_state twin_tl no_values [WInt 7]"]
  show ?thesis
    unfolding val using pre by blast
qed

subsection \<open>The constructor id\<close>

text \<open>
  C2. The first statement of the emitted \<^verbatim>\<open>on_send\<close>, directly in the body of the method
  and under no condition, writes the constructor id of the TLObject as a 32-bit integer.
  The emitted \<^verbatim>\<open>on_response\<close> of a function is the single statement that reads an object
  through \<^verbatim>\<open>tgread_object\<close> into \<^verbatim>\<open>self.result\<close>; that of any other TLObject with
  arguments is the code reading the arguments, with no read of a constructor id before it.
\<close>

theorem constructor_id_first:
  "fst (on_send_code tlobject) =
     Writeln DefOnSend # Writeln (WriteCtorId (tl_id tlobject) (tl_name tlobject))
     # concat (map (\<lambda>i. fst (write_onsend_code (tl_args tlobject) i None))
          [0..<length (tl_args tlobject)])
     @ [EndBlock]
   \<and> (\<exists>body. parse_ops [] [] (fst (on_send_code tlobject)) =
         Some [Block DefOnSend
                 (Stmt (WriteCtorId (tl_id tlobject) (tl_name tlobject)) # body)])
   \<and> exec_stmt (WriteCtorId (tl_id tlobject) (tl_name tlobject)) s =
       Inr (s\<lparr>written := written s @ [WInt (of_nat (tl_id tlobject))]\<rparr>)
   \<and> (is_function tlobject \<longrightarrow>
        fst (on_response_code tlobject) = [Writeln DefOnResponse, Writeln ReadResult, EndBlock]
        \<and> call_method (fst (on_response_code tlobject)) (s\<lparr>unread := WObject obj # rest\<rparr>) =
            Inr (assign (Attr ''result'') (VObject obj) (s\<lparr>unread := rest\<rparr>)))
   \<and> (\<not> is_function tlobject \<and> tl_args tlobject \<noteq> [] \<longrightarrow>
        fst (on_response_code tlobject) =
          Writeln DefOnResponse
          # concat (map (\<lambda>i. fst (write_onresponse_code (tl_args tlobject) i None))
               [0..<length (tl_args tlobject)])
          @ [EndBlock])"
proof -
  let ?args = "tl_args tlobject"
  have send: "map (\<lambda>i. fst (write_onsend_code ?args i None)) [0..<length ?args]
                = map (\<lambda>arg. flatten_all (send_code arg ?args)) ?args"
  proof -
    have "map (\<lambda>i. fst (write_onsend_code ?args i None)) [0..<length ?args]
            = map (\<lambda>i. flatten_all (send_code (?args ! i) ?args)) [0..<length ?args]"
      by (rule map_cong) (simp_all add: write_onsend_code_eq)
    also have "\<dots> = map (\<lambda>arg. flatten_all (send_code arg ?args)) ?args"
      by (rule map_nth_fun)
    finally show ?thesis .
  qed
  have recv: "map (\<lambda>i. fst (write_onresponse_code ?args i None)) [0..<length ?args]
                = map (\<lambda>arg. flatten_all (recv_code arg)) ?args"
  proof -
    have "map (\<lambda>i. fst (write_onresponse_code ?args i None)) [0..<length ?args]
            = map (\<lambda>i. flatten_all (recv_code (?args ! i))) [0..<length ?args]"
      by (rule map_cong) (simp_all add: write_onresponse_code_eq)
    also have "\<dots> = map (\<lambda>arg. flatten_all (recv_code arg)) ?args"
      by (rule map_nth_fun)
    finally show ?thesis .
  qed
  have "fst (on_send_code tlobject) =
     Writeln DefOnSend # Writeln (WriteCtorId (tl_id tlobject) (tl_name tlobject))
     # concat (map (\<lambda>i. fst (write_onsend_code ?args i None)) [0..<length ?args])
     @ [EndBlock]"
    unfolding send by (simp add: on_send_code_eq flatten_all_concat comp_def)
  moreover have "\<exists>body. parse_ops [] [] (fst (on_send_code tlobject)) =
         Some [Block DefOnSend
                 (Stmt (WriteCtorId (tl_id tlobject) (tl_name tlobject)) # body)]"
    by (simp add: parse_on_send_code)
  moreover have "exec_stmt (WriteCtorId (tl_id tlobject) (tl_name tlobject)) s =
       Inr (s\<lparr>written := written s @ [WInt (of_nat (tl_id tlobject))]\<rparr>)"
    by (simp add: emit_def)
  moreover have "is_function tlobject \<longrightarrow>
        call_method (fst (on_response_code tlobject)) (s\<lparr>unread := WObject obj # rest\<rparr>) =
            Inr (assign (Attr ''result'') (VObject obj) (s\<lparr>unread := rest\<rparr>))"
    by (simp add: call_on_response_code read_var_def read_value_def)
  moreover have "is_function tlobject \<longrightarrow>
        fst (on_response_code tlobject) = [Writeln DefOnResponse, Writeln ReadResult, EndBlock]"
    by (simp add: on_response_code_eq)
  moreover have "\<not> is_function tlobject \<and> tl_args tlobject \<noteq> [] \<longrightarrow>
        fst (on_response_code tlobject) =
          Writeln DefOnResponse
          # concat (map (\<lambda>i. fst (write_onresponse_code ?args i None)) [0..<length ?args])
          @ [EndBlock]"
    unfolding recv by (simp add: on_response_code_eq flatten_all_concat comp_def)
  ultimately show ?thesis
    by blast
qed

theorem constructor_id_first_witness:
  "is_function ping_tl
   \<and> call_method (fst (on_response_code ping_tl))
        ((object_state ping_tl no_values [])\<lparr>unread := [WObject 3]\<rparr>)
       = Inr (assign (Attr ''result'') (VObject 3)
                ((object_state ping_tl no_values [])\<lparr>unread := []\<rparr>))
   \<and> \<not> is_function example_tl \<and> tl_args example_tl \<noteq> []
   \<and> fst (on_response_code example_tl) =
       [Writeln DefOnResponse, Writeln (ReadInt (Local ''flags'')), Blank,
        Writeln (IfFlagSet 0), Writeln (ReadInt (Attr ''n'')), EndBlock,
        Writeln (ReadString (Attr ''m'')), EndBlock]"
proof -
  have pre: "is_function ping_tl" "\<not> is_function example_tl \<and> tl_args example_tl \<noteq> []"
    by (simp_all add: ping_tl_def example_defs)
  have code: "Writeln DefOnResponse
      # concat (map (\<lambda>i. fst (write_onresponse_code (tl_args example_tl) i None))
           [0..<length (tl_args example_tl)])
      @ [EndBlock] =
       [Writeln DefOnResponse, Writeln (ReadInt (Local ''flags'')), Blank,
        Writeln (IfFlagSet 0), Writeln (ReadInt (Attr ''n'')), EndBlock,
        Writeln (ReadString (Attr ''m'')), EndBlock]"
    by (simp add: example_defs upt_rec Let_def write_onresponse_code.simps)
  from constructor_id_first [of ping_tl "object_state ping_tl no_values []" 3 "[]"] pre(1)
  have "call_method (fst (on_response_code ping_tl))
        ((object_state ping_tl no_values [])\<lparr>unread := [WObject 3]\<rparr>)
       = Inr (assign (Attr ''result'') (VObject 3)
                ((object_state ping_tl no_values [])\<lparr>unread := []\<rparr>))"
    by blast
  moreover from constructor_id_first [of example_tl] pre(2)
  have "fst (on_response_code example_tl) =
       [Writeln DefOnResponse, Writeln (ReadInt (Local ''flags'')), Blank,
        Writeln (IfFlagSet 0), Writeln (ReadInt (Attr ''n'')), EndBlock,
        Writeln (ReadString (Attr ''m'')), EndBlock]"
    unfolding code by blast
  ultimately show ?thesis
    using pre by blast
qed

subsection \<open>The registry\<close>

lemma filter_registry_entries:
  "filter is_registry_entry (all_tlobjects_code tlobjects) =
     map (\<lambda>tlobject. Writeln (RegistryEntry (tl_id tlobject) (get_full_file_name tlobject)
            (get_class_name tlobject))) tlobjects"
  by (simp add: all_tlobjects_code_def filter_map comp_def)

lemma last_generate_tlobjecs:
  "last (generate_tlobjecs tlobjects) =
     (''tl/all_tlobjects.py'', all_tlobjects_code tlobjects)"
  by (simp add: generate_tlobjecs_def path_join_def)

lemmas naming_defs =
  get_full_file_name_def get_file_name_def get_class_name_def class_filename_def path_join_def
  Let_def is_lower_az_def is_upper_az_def is_digit_09_def upper_char_def lower_char_def

text \<open>
  C5 as stated does not hold: the generator compares no constructor ids. For the two
  schema lines \<^verbatim>\<open>example#1a2b3c4d \<dots>\<close> and \<^verbatim>\<open>twin#1a2b3c4d = Twin;\<close> the run ends with the
  file \<^verbatim>\<open>tl/all_tlobjects.py\<close>, whose dictionary has two entries under the one key.
\<close>

theorem registry_keeps_duplicate_ids:
  "tl_id example_tl = tl_id twin_tl
   \<and> fst (last (generate_tlobjecs [example_tl, twin_tl])) = ''tl/all_tlobjects.py''
   \<and> filter is_registry_entry (snd (last (generate_tlobjecs [example_tl, twin_tl]))) =
       [Writeln (RegistryEntry 0x1a2b3c4d ''tl.types.example'' ''Example''),
        Writeln (RegistryEntry 0x1a2b3c4d ''tl.types.twin'' ''Twin'')]"
  by (simp add: last_generate_tlobjecs filter_registry_entries example_defs more_example_defs
        naming_defs)

text \<open>
  C5, amended. Whatever the constructor ids are, equal or not, the last file of a run is
  \<^verbatim>\<open>tl/all_tlobjects.py\<close>, and its dictionary has exactly one entry for each TLObject, in
  the order of the TLObjects, with the constructor id as the key and the module and the
  class of the TLObject as the value.
\<close>

theorem registry_entry_per_tlobject:
  "fst (last (generate_tlobjecs tlobjects)) = ''tl/all_tlobjects.py''
   \<and> filter is_registry_entry (snd (last (generate_tlobjecs tlobjects))) =
       map (\<lambda>tlobject. Writeln (RegistryEntry (tl_id tlobject) (get_full_file_name tlobject)
              (get_class_name tlobject))) tlobjects"
  by (simp add: last_generate_tlobjecs filter_registry_entries)

theorem registry_entry_per_tlobject_witness:
  "filter is_registry_entry (snd (last (generate_tlobjecs [example_tl, vec_tl, ping_tl]))) =
     [Writeln (RegistryEntry 0x1a2b3c4d ''tl.types.example'' ''Example''),
      Writeln (RegistryEntry 0xaabbccdd ''tl.types.vec'' ''Vec''),
      Writeln (RegistryEntry 0x7abe77ec ''tl.functions.ping'' ''Ping'')]"
  using registry_entry_per_tlobject [of "[example_tl, vec_tl, ping_tl]"]
  by (simp add: example_defs more_example_defs naming_defs)

subsection \<open>Nothing is rejected\<close>

lemma custom_type_code:
  assumes "i < length args" and "\<not> is_vector (args ! i)" and "\<not> is_flag (args ! i)"
    and "\<not> flag_indicator (args ! i)" and "\<not> generic_definition (args ! i)"
    and "type (args ! i) \<notin> set [''int'', ''long'', ''int128'', ''int256'', ''double'',
           ''string'', ''Bool'', ''true'', ''bytes'']"
  shows "write_onsend_code args i None = ([Writeln (WriteObject (Attr (name (args ! i))))], args)"
    and "write_onresponse_code args i None
           = ([Writeln (ReadObject (Attr (name (args ! i))))], args)"
proof -
  have ty: "''int'' \<noteq> type (args ! i)" "''long'' \<noteq> type (args ! i)"
    "''int128'' \<noteq> type (args ! i)" "''int256'' \<noteq> type (args ! i)"
    "''double'' \<noteq> type (args ! i)" "''string'' \<noteq> type (args ! i)"
    "''Bool'' \<noteq> type (args ! i)" "''true'' \<noteq> type (args ! i)"
    "''bytes'' \<noteq> type (args ! i)"
    using assms(6) by auto
  show "write_onsend_code args i None = ([Writeln (WriteObject (Attr (name (args ! i))))], args)"
    using assms(1-5) ty
    by (simp add: write_onsend_code_plain send_value_def guarded_def send_stmt_def)
  show "write_onresponse_code args i None
          = ([Writeln (ReadObject (Attr (name (args ! i))))], args)"
    using assms(1-5) ty
    by (simp add: write_onresponse_code_plain recv_value_def guarded_def recv_stmt_def)
qed

text \<open>
  C6 as stated does not hold: the generator checks nothing. The schema line
  \<^verbatim>\<open>odd#0000beef n:flags.40?int flags:# x:Mystery = Odd;\<close> has an optional argument before
  the flags word, on a bit that the flags word does not have, and an argument of a type
  that is no primitive and no parsed TLObject; the run writes the file of the class all
  the same, with the lines of both methods as listed.
\<close>

theorem invalid_schema_line_generated:
  "map fst (generate_tlobjecs [odd_tl]) = [''tl/types/odd.py'', ''tl/all_tlobjects.py'']
   \<and> snd (hd (generate_tlobjecs [odd_tl])) =
       class_init odd_tl @ fst (on_send_code odd_tl) @ fst (on_response_code odd_tl)
   \<and> fst (on_send_code odd_tl) =
       [Writeln DefOnSend, Writeln (WriteCtorId 0xbeef ''odd''),
        Writeln (IfNotNone (Attr ''n'')), Writeln (WriteInt (Attr ''n'')), EndBlock,
        Writeln FlagsComment, Writeln FlagsZero, Writeln (FlagsOr 40 ''n''),
        Writeln (WriteInt (Local ''flags'')), Blank,
        Writeln (WriteObject (Attr ''x'')), EndBlock]
   \<and> fst (on_response_code odd_tl) =
       [Writeln DefOnResponse,
        Writeln (IfFlagSet 40), Writeln (ReadInt (Attr ''n'')), EndBlock,
        Writeln (ReadInt (Local ''flags'')), Blank,
        Writeln (ReadObject (Attr ''x'')), EndBlock]"
proof -
  have "map fst (generate_tlobjecs [odd_tl]) = [''tl/types/odd.py'', ''tl/all_tlobjects.py'']"
    by (simp add: generate_tlobjecs_def odd_tl_def naming_defs)
  moreover have "snd (hd (generate_tlobjecs [odd_tl])) =
       class_init odd_tl @ fst (on_send_code odd_tl) @ fst (on_response_code odd_tl)"
    by (simp add: generate_tlobjecs_def generate_class_eq)
  moreover have "fst (on_send_code odd_tl) =
       [Writeln DefOnSend, Writeln (WriteCtorId 0xbeef ''odd''),
        Writeln (IfNotNone (Attr ''n'')), Writeln (WriteInt (Attr ''n'')), EndBlock,
        Writeln FlagsComment, Writeln FlagsZero, Writeln (FlagsOr 40 ''n''),
        Writeln (WriteInt (Local ''flags'')), Blank,
        Writeln (WriteObject (Attr ''x'')), EndBlock]"
    by (simp add: on_send_code_def odd_tl_def example_defs upt_rec Let_def
          write_onsend_code.simps)
  moreover have "fst (on_response_code odd_tl) =
       [Writeln DefOnResponse,
        Writeln (IfFlagSet 40), Writeln (ReadInt (Attr ''n'')), EndBlock,
        Writeln (ReadInt (Local ''flags'')), Blank,
        Writeln (ReadObject (Attr ''x'')), EndBlock]"
    by (simp add: on_response_code_def odd_tl_def example_defs upt_rec Let_def
          write_onresponse_code.simps)
  ultimately show ?thesis
    by blast
qed

lemma on_send_code_positions:
  "fst (on_send_code tlobject) =
     Writeln DefOnSend # Writeln (WriteCtorId (tl_id tlobject) (tl_name tlobject))
     # concat (map (\<lambda>i. fst (write_onsend_code (tl_args tlobject) i None))
          [0..<length (tl_args tlobject)])
     @ [EndBlock]"
proof -
  let ?args = "tl_args tlobject"
  have "map (\<lambda>i. fst (write_onsend_code ?args i None)) [0..<length ?args]
          = map (\<lambda>i. flatten_all (send_code (?args ! i) ?args)) [0..<length ?args]"
    by (rule map_cong) (simp_all add: write_onsend_code_eq)
  also have "\<dots> = map (\<lambda>arg. flatten_all (send_code arg ?args)) ?args"
    by (rule map_nth_fun)
  finally show ?thesis
    by (simp add: on_send_code_eq flatten_all_concat comp_def)
qed

lemma on_response_code_positions:
  "fst (on_response_code tlobject) =
     Writeln DefOnResponse
     # (if is_function tlobject then [Writeln ReadResult]
        else if tl_args tlobject \<noteq> [] then
          concat (map (\<lambda>i. fst (write_onresponse_code (tl_args tlobject) i None))
            [0..<length (tl_args tlobject)])
        else [Writeln Pass])
     @ [EndBlock]"
proof -
  let ?args = "tl_args tlobject"
  have "map (\<lambda>i. fst (write_onresponse_code ?args i None)) [0..<length ?args]
          = map (\<lambda>i. flatten_all (recv_code (?args ! i))) [0..<length ?args]"
    by (rule map_cong) (simp_all add: write_onresponse_code_eq)
  also have "\<dots> = map (\<lambda>arg. flatten_all (recv_code arg)) ?args"
    by (rule map_nth_fun)
  finally show ?thesis
    by (simp add: on_response_code_eq flatten_all_concat comp_def)
qed

lemma optional_arg_code:
  assumes "i < length args" and "is_flag (args ! i)" and "\<not> is_vector (args ! i)"
    and "\<not> flag_indicator (args ! i)" and "\<not> generic_definition (args ! i)"
  shows "write_onsend_code args i None =
           ([Writeln (IfNotNone (Attr (name (args ! i)))),
             Writeln (send_stmt (type (args ! i)) (Attr (name (args ! i)))), EndBlock], args)"
    and "write_onresponse_code args i None =
           ([Writeln (IfFlagSet (flag_index (args ! i))),
             Writeln (recv_stmt (type (args ! i)) (Attr (name (args ! i)))), EndBlock], args)"
  using assms
  by (simp_all add: write_onsend_code_plain write_onresponse_code_plain send_value_def
        recv_value_def guarded_def)

text \<open>
  C6, amended. The generator validates nothing, and none of the three conditions keeps it
  from emitting. For every list of TLObjects, the \<open>k\<close>-th file it opens is the file of the
  \<open>k\<close>-th TLObject, and it receives the lines of the class and its constructor, the lines
  of \<^verbatim>\<open>on_send\<close> and the lines of \<^verbatim>\<open>on_response\<close>, which are those that
  \<^verbatim>\<open>write_onsend_code\<close> and \<^verbatim>\<open>write_onresponse_code\<close> emit for the arguments in order. For
  an optional argument (no vector), whatever its flag index is and whether or not a flags
  word comes before it, the write step is emitted inside \<^verbatim>\<open>if self.name is not None:\<close> and
  the read step inside \<^verbatim>\<open>if (flags & (1 << index)) != 0:\<close>. For a type name that is none
  of the nine primitives, the write step is \<^verbatim>\<open>self.name.write(writer)\<close> and the read step
  \<^verbatim>\<open>self.name = reader.tgread_object(reader)\<close>; the name is looked up nowhere.
\<close>

theorem generation_rejects_nothing:
  "(k < length tlobjects \<longrightarrow>
      generate_tlobjecs tlobjects ! k =
        (class_filename (tlobjects ! k),
         class_init (tlobjects ! k)
         @ Writeln DefOnSend
           # Writeln (WriteCtorId (tl_id (tlobjects ! k)) (tl_name (tlobjects ! k)))
           # concat (map (\<lambda>i. fst (write_onsend_code (tl_args (tlobjects ! k)) i None))
                [0..<length (tl_args (tlobjects ! k))])
           @ [EndBlock]
         @ Writeln DefOnResponse
           # (if is_function (tlobjects ! k) then [Writeln ReadResult]
              else if tl_args (tlobjects ! k) \<noteq> [] then
                concat (map (\<lambda>i. fst (write_onresponse_code (tl_args (tlobjects ! k)) i None))
                  [0..<length (tl_args (tlobjects ! k))])
              else [Writeln Pass])
           @ [EndBlock]))
   \<and> (i < length args \<and> is_flag (args ! i) \<and> \<not> is_vector (args ! i)
        \<and> \<not> flag_indicator (args ! i) \<and> \<not> generic_definition (args ! i) \<longrightarrow>
      write_onsend_code args i None =
        ([Writeln (IfNotNone (Attr (name (args ! i)))),
          Writeln (send_stmt (type (args ! i)) (Attr (name (args ! i)))), EndBlock], args)
      \<and> write_onresponse_code args i None =
        ([Writeln (IfFlagSet (flag_index (args ! i))),
          Writeln (recv_stmt (type (args ! i)) (Attr (name (args ! i)))), EndBlock], args))
   \<and> (j < length args \<and> \<not> is_vector (args ! j) \<and> \<not> is_flag (args ! j)
        \<and> \<not> flag_indicator (args ! j) \<and> \<not> generic_definition (args ! j)
        \<and> type (args ! j) \<notin> set [''int'', ''long'', ''int128'', ''int256'', ''double'',
              ''string'', ''Bool'', ''true'', ''bytes''] \<longrightarrow>
      write_onsend_code args j None = ([Writeln (WriteObject (Attr (name (args ! j))))], args)
      \<and> write_onresponse_code args j None
          = ([Writeln (ReadObject (Attr (name (args ! j))))], args))"
proof -
  have "k < length tlobjects \<longrightarrow>
      generate_tlobjecs tlobjects ! k =
        (class_filename (tlobjects ! k),
         class_init (tlobjects ! k) @ fst (on_send_code (tlobjects ! k))
         @ fst (on_response_code (tlobjects ! k)))"
    by (simp add: generate_tlobjecs_def generate_class_eq nth_append)
  then show ?thesis
    unfolding on_send_code_positions on_response_code_positions
    using custom_type_code [of j args] optional_arg_code [of i args]
    by simp
qed

theorem generation_rejects_nothing_witness:
  "fst (generate_tlobjecs [odd_tl, ping_tl] ! 0) = ''tl/types/odd.py''
   \<and> flag_index (tl_args odd_tl ! 0) = 40 \<and> \<not> flag_indicator (tl_args odd_tl ! 0)
   \<and> write_onsend_code (tl_args odd_tl) 0 None =
       ([Writeln (IfNotNone (Attr ''n'')), Writeln (WriteInt (Attr ''n'')), EndBlock],
        tl_args odd_tl)
   \<and> write_onresponse_code (tl_args odd_tl) 0 None =
       ([Writeln (IfFlagSet 40), Writeln (ReadInt (Attr ''n'')), EndBlock], tl_args odd_tl)
   \<and> write_onsend_code (tl_args odd_tl) 2 None =
       ([Writeln (WriteObject (Attr ''x''))], tl_args odd_tl)
   \<and> write_onresponse_code (tl_args odd_tl) 2 None =
       ([Writeln (ReadObject (Attr ''x''))], tl_args odd_tl)"
proof -
  have k: "0 < length [odd_tl, ping_tl]"
    by simp
  have i: "0 < length (tl_args odd_tl) \<and> is_flag (tl_args odd_tl ! 0)
      \<and> \<not> is_vector (tl_args odd_tl ! 0) \<and> \<not> flag_indicator (tl_args odd_tl ! 0)
      \<and> \<not> generic_definition (tl_args odd_tl ! 0)"
    by (simp add: odd_tl_def example_defs)
  have j: "2 < length (tl_args odd_tl) \<and> \<not> is_vector (tl_args odd_tl ! 2)
      \<and> \<not> is_flag (tl_args odd_tl ! 2) \<and> \<not> flag_indicator (tl_args odd_tl ! 2)
      \<and> \<not> generic_definition (tl_args odd_tl ! 2)
      \<and> type (tl_args odd_tl ! 2) \<notin> set [''int'', ''long'', ''int128'', ''int256'', ''double'',
              ''string'', ''Bool'', ''true'', ''bytes'']"
    by (simp add: odd_tl_def example_defs)
  have vals: "name (tl_args odd_tl ! 0) = ''n''" "type (tl_args odd_tl ! 0) = ''int''"
    "flag_index (tl_args odd_tl ! 0) = 40" "name (tl_args odd_tl ! 2) = ''x''"
    "send_stmt ''int'' (Attr ''n'') = WriteInt (Attr ''n'')"
    "recv_stmt ''int'' (Attr ''n'') = ReadInt (Attr ''n'')"
    by (simp_all add: odd_tl_def example_defs send_stmt_def recv_stmt_def)
  have path: "class_filename ([odd_tl, ping_tl] ! 0) = ''tl/types/odd.py''"
    by (simp add: odd_tl_def naming_defs)
  from generation_rejects_nothing [of 0 "[odd_tl, ping_tl]" 0 "tl_args odd_tl" 2] k i j
  have "fst (generate_tlobjecs [odd_tl, ping_tl] ! 0) = class_filename ([odd_tl, ping_tl] ! 0)"
    and "write_onsend_code (tl_args odd_tl) 0 None =
       ([Writeln (IfNotNone (Attr ''n'')), Writeln (WriteInt (Attr ''n'')), EndBlock],
        tl_args odd_tl)"
    and "write_onresponse_code (tl_args odd_tl) 0 None =
       ([Writeln (IfFlagSet 40), Writeln (ReadInt (Attr ''n'')), EndBlock], tl_args odd_tl)"
    and "write_onsend_code (tl_args odd_tl) 2 None =
       ([Writeln (WriteObject (Attr ''x''))], tl_args odd_tl)"
    and "write_onresponse_code (tl_args odd_tl) 2 None =
       ([Writeln (ReadObject (Attr ''x''))], tl_args odd_tl)"
    by (simp_all add: vals)
  with i vals(3) path show ?thesis
    by simp
qed

subsection \<open>The type \<^verbatim>\<open>true\<close>\<close>

lemma sint_eq_true_id: "(sint w = 0x3fedd339) = (w = 0x3fedd339)" for w :: "32 word"
proof
  assume "sint w = 0x3fedd339"
  then have "of_int (sint w) = (of_int 0x3fedd339 :: 32 word)"
    by simp
  then show "w = 0x3fedd339"
    by simp
next
  assume "w = 0x3fedd339"
  then show "sint w = 0x3fedd339"
    by simp
qed

text \<open>
  C7. For an argument of the type \<^verbatim>\<open>true\<close> (no vector, not the flags word, no generic
  definition) the emitted write step is the line \<^verbatim>\<open>writer.write_int(0x3fedd339)  # true\<close>,
  inside \<^verbatim>\<open>if self.name is not None:\<close> when the argument is optional; the line names no
  variable, and running it appends the one 32-bit item \<^verbatim>\<open>0x3fedd339\<close> and changes nothing
  else. The emitted read step is \<^verbatim>\<open>self.name = reader.read_int() == 0x3fedd339\<close>, inside
  the test of the flag bit when the argument is optional; running it takes one 32-bit
  item from the reader and assigns to the one variable whether the item is that constant.
\<close>

theorem true_type_steps:
  assumes "i < length args" and "type (args ! i) = ''true''" and "\<not> is_vector (args ! i)"
    and "\<not> flag_indicator (args ! i)" and "\<not> generic_definition (args ! i)"
  shows "fst (write_onsend_code args i None) =
           (if is_flag (args ! i)
            then [Writeln (IfNotNone (Attr (name (args ! i)))), Writeln WriteTrue, EndBlock]
            else [Writeln WriteTrue])
    \<and> fst (write_onresponse_code args i None) =
           (if is_flag (args ! i)
            then [Writeln (IfFlagSet (flag_index (args ! i))),
                  Writeln (ReadTrue (Attr (name (args ! i)))), EndBlock]
            else [Writeln (ReadTrue (Attr (name (args ! i))))])
    \<and> render WriteTrue = ''writer.write_int(0x3fedd339)  # true''
    \<and> exec_stmt WriteTrue s = Inr (s\<lparr>written := written s @ [WInt 0x3fedd339]\<rparr>)
    \<and> exec_stmt (ReadTrue v) (s\<lparr>unread := WInt w # rest\<rparr>) =
        Inr (s\<lparr>vars := (vars s)(v \<mapsto> VBool (w = 0x3fedd339)), unread := rest\<rparr>)"
proof -
  have "fst (write_onsend_code args i None) =
           (if is_flag (args ! i)
            then [Writeln (IfNotNone (Attr (name (args ! i)))), Writeln WriteTrue, EndBlock]
            else [Writeln WriteTrue])"
    using assms
    by (simp add: write_onsend_code_plain send_value_def guarded_def send_stmt_def)
  moreover have "fst (write_onresponse_code args i None) =
           (if is_flag (args ! i)
            then [Writeln (IfFlagSet (flag_index (args ! i))),
                  Writeln (ReadTrue (Attr (name (args ! i)))), EndBlock]
            else [Writeln (ReadTrue (Attr (name (args ! i))))])"
    using assms
    by (simp add: write_onresponse_code_plain recv_value_def guarded_def recv_stmt_def)
  moreover have "exec_stmt WriteTrue s = Inr (s\<lparr>written := written s @ [WInt 0x3fedd339]\<rparr>)"
    by (simp add: emit_def)
  moreover have "exec_stmt (ReadTrue v) (s\<lparr>unread := WInt w # rest\<rparr>) =
        Inr (s\<lparr>vars := (vars s)(v \<mapsto> VBool (w = 0x3fedd339)), unread := rest\<rparr>)"
    by (simp add: read_var_def read_value_def assign_def sint_eq_true_id)
  ultimately show ?thesis
    by simp
qed

theorem true_type_steps_witness:
  "write_onsend_code (tl_args mark_tl) 0 None = ([Writeln WriteTrue], tl_args mark_tl)
   \<and> fst (write_onresponse_code (tl_args mark_tl) 0 None) = [Writeln (ReadTrue (Attr ''sure''))]
   \<and> exec_stmt (ReadTrue (Attr ''sure'')) (object_state mark_tl no_values [WInt 0x3fedd339]) =
       Inr ((object_state mark_tl no_values [])
              \<lparr>vars := (new_object mark_tl no_values)(Attr ''sure'' \<mapsto> VBool True)\<rparr>)"
proof -
  have pre: "0 < length (tl_args mark_tl)" "type (tl_args mark_tl ! 0) = ''true''"
    "\<not> is_vector (tl_args mark_tl ! 0)" "\<not> flag_indicator (tl_args mark_tl ! 0)"
    "\<not> generic_definition (tl_args mark_tl ! 0)"
    by (simp_all add: mark_tl_def example_defs)
  have more: "\<not> is_flag (tl_args mark_tl ! 0)" "name (tl_args mark_tl ! 0) = ''sure''"
    by (simp_all add: mark_tl_def example_defs)
  have send: "snd (write_onsend_code (tl_args mark_tl) 0 None) = tl_args mark_tl"
    using pre by (simp add: write_onsend_code_eq)
  have st: "object_state mark_tl no_values [WInt 0x3fedd339] =
      (object_state mark_tl no_values [])\<lparr>unread := WInt 0x3fedd339 # []\<rparr>"
    by (simp add: object_state_def)
  from true_type_steps [OF pre, of "object_state mark_tl no_values []" "Attr ''sure''"
      "0x3fedd339" "[]"] more send
  show ?thesis
    unfolding st by (simp add: prod_eq_iff object_state_def)
qed

subsection \<open>The vector switch of an argument\<close>

text \<open>
  C8. For a vector argument, \<^verbatim>\<open>write_onsend_code\<close> and \<^verbatim>\<open>write_onresponse_code\<close> emit the
  lines that frame the vector around the lines of one recursive call, which works on the
  store with \<^verbatim>\<open>is_vector\<close> of the argument switched off and on the name of the item; that
  call emits no framing of a vector again and leaves its store as it found it; and when
  the outer call returns, the store is the one it was given, the switch being on again.
\<close>

theorem vector_switch_restored:
  assumes "i < length args" and "is_vector (args ! i)" and "\<not> generic_definition (args ! i)"
  shows
    "(let arg = args ! i;
          args0 = args[i := arg\<lparr>is_vector := False\<rparr>];
          item = Local (name arg @ ''_item'');
          inner = write_onsend_code args0 i (Some item)
      in fst (write_onsend_code args i None) =
           (if is_flag arg then [Writeln (IfNotNone (Attr (name arg)))] else [])
           @ [Writeln WriteVectorId, Writeln (WriteLen (Attr (name arg))),
              Writeln (ForItemIn (name arg) (Attr (name arg)))]
           @ fst inner @ [EndBlock]
           @ (if is_flag arg then [EndBlock] else [])
         \<and> snd inner = args0
         \<and> Writeln WriteVectorId \<notin> set (fst inner)
         \<and> snd (write_onsend_code args i None) = args)
     \<and> (let arg = args ! i;
             args0 = args[i := arg\<lparr>is_vector := False\<rparr>];
             item = Local (name arg @ ''_item'');
             inner = write_onresponse_code args0 i (Some item)
         in fst (write_onresponse_code args i None) =
              (if is_flag arg then [Writeln (IfFlagSet (flag_index arg))] else [])
              @ [Writeln ReadVectorId, Writeln (InitList (Attr (name arg))),
                 Writeln (ReadInt (Attr (name arg @ ''_len''))),
                 Writeln (ForRange (Attr (name arg @ ''_len'')))]
              @ fst inner @ [Writeln (Append (Attr (name arg)) item), EndBlock]
              @ (if is_flag arg then [EndBlock] else [])
            \<and> snd inner = args0
            \<and> Writeln ReadVectorId \<notin> set (fst inner)
            \<and> snd (write_onresponse_code args i None) = args)"
proof -
  let ?arg = "args ! i"
  let ?args0 = "args[i := ?arg\<lparr>is_vector := False\<rparr>]"
  let ?item = "Local (name ?arg @ ''_item'')"
  have send_inner: "write_onsend_code ?args0 i (Some ?item)
                      = (flatten_all (send_value (?args0 ! i) ?args0 ?item), ?args0)"
    using assms by (intro write_onsend_code_plain) simp_all
  have recv_inner: "write_onresponse_code ?args0 i (Some ?item)
                      = (flatten_all (recv_value (?args0 ! i) ?item), ?args0)"
    using assms by (intro write_onresponse_code_plain) simp_all
  have sv: "send_value (?arg\<lparr>is_vector := False\<rparr>) ?args0 nm = send_value ?arg args nm" for nm
    using assms by (simp add: send_value_def send_flags_update)
  have rv: "recv_value (?arg\<lparr>is_vector := False\<rparr>) nm = recv_value ?arg nm" for nm
    by (simp add: recv_value_def)
  have no_send_frame: "Writeln WriteVectorId \<notin> set (flatten_all (send_value ?arg args ?item))"
    by (auto simp: send_value_def guarded_def flatten_send_flags send_stmt_def)
  have no_recv_frame: "Writeln ReadVectorId \<notin> set (flatten_all (recv_value ?arg ?item))"
    by (auto simp: recv_value_def guarded_def recv_stmt_def)
  have "fst (write_onsend_code args i None) =
           (if is_flag ?arg then [Writeln (IfNotNone (Attr (name ?arg)))] else [])
           @ [Writeln WriteVectorId, Writeln (WriteLen (Attr (name ?arg))),
              Writeln (ForItemIn (name ?arg) (Attr (name ?arg)))]
           @ flatten_all (send_value ?arg args ?item) @ [EndBlock]
           @ (if is_flag ?arg then [EndBlock] else [])"
    using assms by (simp add: write_onsend_code_eq send_code_def guarded_def)
  moreover have "fst (write_onresponse_code args i None) =
              (if is_flag ?arg then [Writeln (IfFlagSet (flag_index ?arg))] else [])
              @ [Writeln ReadVectorId, Writeln (InitList (Attr (name ?arg))),
                 Writeln (ReadInt (Attr (name ?arg @ ''_len''))),
                 Writeln (ForRange (Attr (name ?arg @ ''_len'')))]
              @ flatten_all (recv_value ?arg ?item)
              @ [Writeln (Append (Attr (name ?arg)) ?item), EndBlock]
              @ (if is_flag ?arg then [EndBlock] else [])"
    using assms by (simp add: write_onresponse_code_eq recv_code_def guarded_def)
  ultimately show ?thesis
    using assms no_send_frame no_recv_frame
    by (simp add: Let_def send_inner recv_inner sv rv write_onsend_code_eq
          write_onresponse_code_eq)
qed

theorem vector_switch_restored_witness:
  "write_onsend_code (tl_args vec_tl) 0 None =
     ([Writeln WriteVectorId, Writeln (WriteLen (Attr ''items'')),
       Writeln (ForItemIn ''items'' (Attr ''items'')),
       Writeln (WriteInt (Local ''items_item'')), EndBlock],
      tl_args vec_tl)
   \<and> write_onresponse_code (tl_args vec_tl) 0 None =
     ([Writeln ReadVectorId, Writeln (InitList (Attr ''items'')),
       Writeln (ReadInt (Attr ''items_len'')), Writeln (ForRange (Attr ''items_len'')),
       Writeln (ReadInt (Local ''items_item'')),
       Writeln (Append (Attr ''items'') (Local ''items_item'')), EndBlock],
      tl_args vec_tl)"
proof -
  have pre: "0 < length (tl_args vec_tl)" "is_vector (tl_args vec_tl ! 0)"
    "\<not> generic_definition (tl_args vec_tl ! 0)"
    by (simp_all add: example_defs)
  have inner: "write_onsend_code
       ((tl_args vec_tl)[0 := (tl_args vec_tl ! 0)\<lparr>is_vector := False\<rparr>]) 0
       (Some (Local (name (tl_args vec_tl ! 0) @ ''_item'')))
     = ([Writeln (WriteInt (Local ''items_item''))],
        (tl_args vec_tl)[0 := (tl_args vec_tl ! 0)\<lparr>is_vector := False\<rparr>])"
    "write_onresponse_code
       ((tl_args vec_tl)[0 := (tl_args vec_tl ! 0)\<lparr>is_vector := False\<rparr>]) 0
       (Some (Local (name (tl_args vec_tl ! 0) @ ''_item'')))
     = ([Writeln (ReadInt (Local ''items_item''))],
        (tl_args vec_tl)[0 := (tl_args vec_tl ! 0)\<lparr>is_vector := False\<rparr>])"
    by (simp_all add: example_defs Let_def write_onsend_code.simps write_onresponse_code.simps)
  have more: "\<not> is_flag (tl_args vec_tl ! 0)" "name (tl_args vec_tl ! 0) = ''items''"
    by (simp_all add: example_defs)
  from vector_switch_restored [OF pre] show ?thesis
    unfolding Let_def inner by (simp add: more prod_eq_iff)
qed

subsection \<open>Running single statements\<close>

lemma exec_block_append:
  "exec_block (cs @ ds) s =
     (case exec_block cs s of Inl e \<Rightarrow> Inl e | Inr s' \<Rightarrow> exec_block ds s')"
  by (induction cs arbitrary: s) (simp_all split: sum.split)

lemma type_cases [case_names int long int128 int256 double string Bool true bytes custom]:
  obtains "ty = ''int''" | "ty = ''long''" | "ty = ''int128''" | "ty = ''int256''"
    | "ty = ''double''" | "ty = ''string''" | "ty = ''Bool''" | "ty = ''true''"
    | "ty = ''bytes''"
    | "''int'' \<noteq> ty" "''long'' \<noteq> ty" "''int128'' \<noteq> ty" "''int256'' \<noteq> ty"
      "''double'' \<noteq> ty" "''string'' \<noteq> ty" "''Bool'' \<noteq> ty" "''true'' \<noteq> ty"
      "''bytes'' \<noteq> ty"
  by metis

lemma exec_send_stmt:
  assumes "vars s nm = Some v"
  shows "exec_stmt (send_stmt ty nm) s =
     (case encode_value ty v of None \<Rightarrow> Inl TypeError | Some w \<Rightarrow> Inr (emit w s))"
  using assms
  by (cases rule: type_cases [of ty])
     (simp_all add: send_stmt_def encode_value_def write_var_def lookup_def)

lemma decode_value_primitive:
  "decode_value ''int'' = dec_int" "decode_value ''long'' = dec_long"
  "decode_value ''int128'' = dec_large 128" "decode_value ''int256'' = dec_large 256"
  "decode_value ''double'' = dec_double" "decode_value ''string'' = dec_string"
  "decode_value ''Bool'' = dec_bool" "decode_value ''true'' = dec_true"
  "decode_value ''bytes'' = dec_bytes"
  by (rule ext, simp add: decode_value_def)+

lemma decode_value_custom:
  assumes "''int'' \<noteq> ty" "''long'' \<noteq> ty" "''int128'' \<noteq> ty" "''int256'' \<noteq> ty"
    "''double'' \<noteq> ty" "''string'' \<noteq> ty" "''Bool'' \<noteq> ty" "''true'' \<noteq> ty"
    "''bytes'' \<noteq> ty"
  shows "decode_value ty = dec_object"
  using assms by (intro ext) (simp add: decode_value_def)

lemma exec_recv_stmt: "exec_stmt (recv_stmt ty nm) r = read_var (decode_value ty) nm r"
  by (cases rule: type_cases [of ty])
     (simp_all add: recv_stmt_def decode_value_primitive decode_value_custom)

lemma signed_in_cases:
  assumes "signed_in b v"
  obtains x where "v = VInt x" and "- (2 ^ (b - 1)) \<le> x" and "x < 2 ^ (b - 1)"
  using assms by (cases v) (auto simp: signed_in_def)

lemma large_int_round_trip:
  fixes x :: int
  assumes "0 < b" and "- (2 ^ (b - 1)) \<le> x" and "x < 2 ^ (b - 1)"
  shows "signed_take_bit (b - 1) (take_bit b x) = x"
proof -
  have "\<not> b \<le> b - 1"
    using assms(1) by simp
  then have "signed_take_bit (b - 1) (take_bit b x) = signed_take_bit (b - 1) x"
    by (simp add: signed_take_bit_take_bit)
  also have "\<dots> = x"
    using assms(2,3) by (rule signed_take_bit_int_eq_self)
  finally show ?thesis .
qed

lemma sint_of_int_32:
  assumes "- (2 ^ 31) \<le> x" and "x < 2 ^ 31"
  shows "sint (word_of_int x :: 32 word) = x"
proof -
  have "sint (word_of_int x :: 32 word) = signed_take_bit 31 x"
    by (simp add: sint_sbintrunc')
  also have "\<dots> = x"
    using assms by (rule signed_take_bit_int_eq_self)
  finally show ?thesis .
qed

lemma sint_of_int_64:
  assumes "- (2 ^ 63) \<le> x" and "x < 2 ^ 63"
  shows "sint (word_of_int x :: 64 word) = x"
proof -
  have "sint (word_of_int x :: 64 word) = signed_take_bit 63 x"
    by (simp add: sint_sbintrunc')
  also have "\<dots> = x"
    using assms by (rule signed_take_bit_int_eq_self)
  finally show ?thesis .
qed

lemma decode_encode:
  assumes "well_typed ty v"
  shows "\<exists>w. encode_value ty v = Some w \<and> decode_value ty w = Some v"
proof (cases rule: type_cases [of ty])
  case int
  with assms have "signed_in 32 v"
    by (simp add: well_typed_def)
  then obtain x where "v = VInt x" "- (2 ^ 31) \<le> x" "x < 2 ^ 31"
    by (rule signed_in_cases) simp
  with int show ?thesis
    by (simp add: encode_value_def decode_value_def sint_of_int_32)
next
  case long
  with assms have "signed_in 64 v"
    by (simp add: well_typed_def)
  then obtain x where "v = VInt x" "- (2 ^ 63) \<le> x" "x < 2 ^ 63"
    by (rule signed_in_cases) simp
  with long show ?thesis
    by (simp add: encode_value_def decode_value_def sint_of_int_64)
next
  case int128
  with assms have "signed_in 128 v"
    by (simp add: well_typed_def)
  then obtain x :: int where x: "v = VInt x" "- (2 ^ (128 - 1)) \<le> x" "x < 2 ^ (128 - 1)"
    by (rule signed_in_cases)
  have "signed_take_bit (128 - 1) (take_bit 128 x) = x"
    using x(2,3) by (intro large_int_round_trip) simp_all
  with int128 x(1) show ?thesis
    by (simp add: encode_value_def decode_value_def)
next
  case int256
  with assms have "signed_in 256 v"
    by (simp add: well_typed_def)
  then obtain x :: int where x: "v = VInt x" "- (2 ^ (256 - 1)) \<le> x" "x < 2 ^ (256 - 1)"
    by (rule signed_in_cases)
  have "signed_take_bit (256 - 1) (take_bit 256 x) = x"
    using x(2,3) by (intro large_int_round_trip) simp_all
  with int256 x(1) show ?thesis
    by (simp add: encode_value_def decode_value_def)
next
  case double
  with assms show ?thesis
    by (cases v) (simp_all add: well_typed_def encode_value_def decode_value_def)
next
  case string
  with assms show ?thesis
    by (cases v) (simp_all add: well_typed_def encode_value_def decode_value_def)
next
  case Bool
  with assms show ?thesis
    by (cases v) (simp_all add: well_typed_def encode_value_def decode_value_def)
next
  case true
  with assms show ?thesis
    by (simp add: well_typed_def encode_value_def decode_value_def)
next
  case bytes
  with assms show ?thesis
    by (cases v) (simp_all add: well_typed_def encode_value_def decode_value_def)
next
  case custom
  with assms show ?thesis
    by (cases v) (simp_all add: well_typed_def encode_value_def decode_value_def)
qed

lemma well_typed_not_None: "well_typed ty v \<Longrightarrow> v \<noteq> VNone"
  by (cases rule: type_cases [of ty]) (auto simp: well_typed_def signed_in_def)

lemma value_wire_round_trip:
  assumes "well_typed ty v"
  obtains w where "value_wire ty v = [w]" and "encode_value ty v = Some w"
    and "decode_value ty w = Some v"
  using decode_encode [OF assms] by (auto simp: value_wire_def)

subsection \<open>The flags word\<close>

lemma bit_foldl_flags:
  "bit (foldl (\<lambda>f flag. f OR (if p flag then push_bit (idx flag) 1 else 0)) f0 flags) k
     \<longleftrightarrow> bit f0 k \<or> (\<exists>flag \<in> set flags. p flag \<and> idx flag = k)"
  for f0 :: int
proof (induction flags arbitrary: f0)
  case Nil
  then show ?case by simp
next
  case (Cons flag flags)
  show ?case
    by (auto simp: Cons.IH bit_or_iff bit_exp_iff)
qed

lemma bit_flags_value:
  "bit (flags_value args val) k
     \<longleftrightarrow> (\<exists>flag \<in> set args. is_flag flag \<and> val (name flag) \<noteq> VNone \<and> flag_index flag = k)"
  unfolding flags_value_def by (simp add: bit_foldl_flags) blast

lemma flag_test_iff_bit: "(f AND push_bit i 1 \<noteq> 0) = bit f i" for f :: int
  by (simp add: and_exp_eq_0_iff_not_bit)

lemma bit_sint_of_int_32:
  "k < 32 \<Longrightarrow> bit (sint (word_of_int f :: 32 word)) k = bit f k"
  by (auto simp: bit_sint_iff bit_word_of_int_iff)

subsection \<open>Running the code of one value\<close>

lemma state_written_same [simp]: "s\<lparr>written := written s @ []\<rparr> = s"
  by simp

lemma exec_send_value:
  assumes "vars s nm = Some v" and "\<not> flag_indicator arg"
    and "is_flag arg \<and> v = VNone \<or> well_typed (type arg) v"
  shows "exec_block (send_value arg args nm) s =
           Inr (s\<lparr>written := written s
                  @ (if is_flag arg \<and> v = VNone then [] else value_wire (type arg) v)\<rparr>)"
proof (cases "is_flag arg \<and> v = VNone")
  case True
  with assms(1,2) show ?thesis
    by (simp add: send_value_def guarded_def lookup_def)
next
  case False
  with assms(3) have "well_typed (type arg) v"
    by blast
  then obtain w where w: "value_wire (type arg) v = [w]" "encode_value (type arg) v = Some w"
    by (rule value_wire_round_trip)
  have "v \<noteq> VNone"
    using \<open>well_typed (type arg) v\<close> by (rule well_typed_not_None)
  with False assms(1,2) w show ?thesis
    by (simp add: send_value_def guarded_def lookup_def exec_send_stmt emit_def)
qed

lemma exec_flag_lines:
  assumes "vars s (Local ''flags'') = Some (VInt f0)"
    and "\<forall>flag \<in> set flags. vars s (Attr (name flag)) = Some (val (name flag))"
  shows "exec_block (map (\<lambda>flag. Stmt (FlagsOr (flag_index flag) (name flag))) flags) s =
           Inr (s\<lparr>vars := (vars s)(Local ''flags'' \<mapsto>
                  VInt (foldl (\<lambda>f flag. f OR (if val (name flag) \<noteq> VNone
                                               then push_bit (flag_index flag) 1 else 0))
                          f0 flags))\<rparr>)"
  using assms
proof (induction flags arbitrary: s f0)
  case Nil
  then have "(vars s)(Local ''flags'' \<mapsto> VInt f0) = vars s"
    by (simp add: fun_upd_idem)
  then show ?case
    by simp
next
  case (Cons flag flags)
  let ?F = "\<lambda>f flag. f OR (if val (name flag) \<noteq> VNone
                                then push_bit (flag_index flag) 1 else (0::int))"
  let ?f1 = "?F f0 flag"
  let ?s1 = "s\<lparr>vars := (vars s)(Local ''flags'' \<mapsto> VInt ?f1)\<rparr>"
  have step: "exec (Stmt (FlagsOr (flag_index flag) (name flag))) s = Inr ?s1"
    using Cons.prems by (simp add: lookup_def assign_def)
  have rest: "exec_block (map (\<lambda>flag. Stmt (FlagsOr (flag_index flag) (name flag))) flags) ?s1 =
          Inr (?s1\<lparr>vars := (vars ?s1)(Local ''flags'' \<mapsto> VInt (foldl ?F ?f1 flags))\<rparr>)"
    using Cons.prems by (intro Cons.IH) simp_all
  have upd: "?s1\<lparr>vars := (vars ?s1)(Local ''flags'' \<mapsto> VInt z)\<rparr>
               = s\<lparr>vars := (vars s)(Local ''flags'' \<mapsto> VInt z)\<rparr>" for z
    by simp
  have "exec_block (map (\<lambda>flag. Stmt (FlagsOr (flag_index flag) (name flag))) (flag # flags)) s
          = exec_block (map (\<lambda>flag. Stmt (FlagsOr (flag_index flag) (name flag))) flags) ?s1"
    by (simp only: list.map exec_block.simps step sum.case)
  also have "\<dots> = Inr (s\<lparr>vars := (vars s)(Local ''flags'' \<mapsto> VInt (foldl ?F ?f1 flags))\<rparr>)"
    unfolding rest upd ..
  also have "foldl ?F ?f1 flags = foldl ?F f0 (flag # flags)"
    by (simp only: foldl.simps)
  finally show ?case .
qed

lemma exec_send_flags:
  assumes "\<forall>flag \<in> set args. is_flag flag \<longrightarrow>
             vars s (Attr (name flag)) = Some (val (name flag))"
  shows "exec_block (send_flags args) s =
           Inr (s\<lparr>vars := (vars s)(Local ''flags'' \<mapsto> VInt (flags_value args val)),
                  written := written s @ [WInt (of_int (flags_value args val))]\<rparr>)"
proof -
  let ?s0 = "s\<lparr>vars := (vars s)(Local ''flags'' \<mapsto> VInt 0)\<rparr>"
  have "exec_block (flag_lines args) ?s0 =
          Inr (?s0\<lparr>vars := (vars ?s0)(Local ''flags'' \<mapsto> VInt (flags_value args val))\<rparr>)"
    unfolding flag_lines_def flags_value_def
    using assms by (intro exec_flag_lines) simp_all
  then show ?thesis
    by (simp add: send_flags_def exec_block_append assign_def write_var_def lookup_def
          emit_def)
qed

lemma exec_for_send:
  assumes "list_all (well_typed (type arg)) xs" and "\<not> flag_indicator arg"
  shows "\<exists>s'. exec_for item (send_value arg args item) xs s = Inr s'
           \<and> written s' = written s @ concat (map (value_wire (type arg)) xs)
           \<and> unread s' = unread s
           \<and> (\<forall>v. v \<noteq> item \<longrightarrow> vars s' v = vars s v)"
  using assms(1)
proof (induction xs arbitrary: s)
  case Nil
  then show ?case by simp
next
  case (Cons x xs)
  let ?s1 = "assign item x s"
  let ?s2 = "?s1\<lparr>written := written ?s1 @ value_wire (type arg) x\<rparr>"
  from Cons.prems have x: "well_typed (type arg) x" and xs: "list_all (well_typed (type arg)) xs"
    by simp_all
  have "x \<noteq> VNone"
    using x by (rule well_typed_not_None)
  then have body: "exec_block (send_value arg args item) ?s1 = Inr ?s2"
    using exec_send_value [of ?s1 item x arg args] x assms(2) by (simp add: assign_def)
  from Cons.IH [OF xs, of ?s2] obtain s' where
    s': "exec_for item (send_value arg args item) xs ?s2 = Inr s'"
      "written s' = written ?s2 @ concat (map (value_wire (type arg)) xs)"
      "unread s' = unread ?s2" "\<forall>v. v \<noteq> item \<longrightarrow> vars s' v = vars ?s2 v"
    by blast
  from body s' show ?case
    by (simp add: assign_def)
qed

lemma exec_recv_value:
  assumes "\<not> flag_indicator arg"
    and "unread r = (if present then value_wire (type arg) v else []) @ rest"
    and "is_flag arg \<longrightarrow>
           (\<exists>f. vars r (Local ''flags'') = Some (VInt f) \<and> bit f (flag_index arg) = present)"
    and "\<not> is_flag arg \<longrightarrow> present"
    and "present \<longrightarrow> well_typed (type arg) v"
  shows "exec_block (recv_value arg nm) r =
           Inr (if present then assign nm v (r\<lparr>unread := rest\<rparr>) else r)"
proof (cases present)
  case True
  with assms(5) have "well_typed (type arg) v"
    by blast
  then obtain w where w: "value_wire (type arg) v = [w]" "decode_value (type arg) w = Some v"
    by (rule value_wire_round_trip)
  with True assms(2) have read: "exec_stmt (recv_stmt (type arg) nm) r
                                   = Inr (assign nm v (r\<lparr>unread := rest\<rparr>))"
    by (simp add: exec_recv_stmt read_var_def read_value_def)
  show ?thesis
  proof (cases "is_flag arg")
    case False
    with True assms(1) read show ?thesis
      by (simp add: recv_value_def guarded_def)
  next
    case flag: True
    with assms(3) True obtain f where "vars r (Local ''flags'') = Some (VInt f)"
      "bit f (flag_index arg)"
      by blast
    with True flag assms(1) read show ?thesis
      by (simp add: recv_value_def guarded_def lookup_def and_exp_eq_0_iff_not_bit)
  qed
next
  case False
  with assms(4) have flag: "is_flag arg"
    by blast
  with assms(3) False obtain f where "vars r (Local ''flags'') = Some (VInt f)"
    "\<not> bit f (flag_index arg)"
    by blast
  with False flag assms(1) show ?thesis
    by (simp add: recv_value_def guarded_def lookup_def and_exp_eq_0_iff_not_bit)
qed

lemma exec_for_recv:
  assumes "list_all (well_typed (type arg)) xs" and "\<not> flag_indicator arg"
    and "length js = length xs"
    and "unread r = concat (map (value_wire (type arg)) xs) @ rest"
    and "vars r nm = Some (VList acc)"
    and "is_flag arg \<longrightarrow>
           (\<exists>f. vars r (Local ''flags'') = Some (VInt f) \<and> bit f (flag_index arg))"
    and "nm \<noteq> item" and "nm \<noteq> lv" and "nm \<noteq> Local ''flags''"
    and "item \<noteq> Local ''flags''" and "lv \<noteq> Local ''flags''"
  shows "\<exists>r'. exec_for lv (recv_value arg item @ [Stmt (Append nm item)]) js r = Inr r'
           \<and> unread r' = rest \<and> written r' = written r
           \<and> vars r' nm = Some (VList (acc @ xs))
           \<and> (\<forall>v. v \<noteq> nm \<and> v \<noteq> item \<and> v \<noteq> lv \<longrightarrow> vars r' v = vars r v)"
  using assms(1,3,4,5,6)
proof (induction xs arbitrary: js r acc)
  case Nil
  then show ?case by simp
next
  case (Cons x xs)
  from Cons.prems(2) obtain j js' where js: "js = j # js'" "length js' = length xs"
    by (cases js) simp_all
  from Cons.prems(1) have x: "well_typed (type arg) x"
    and xs: "list_all (well_typed (type arg)) xs"
    by simp_all
  let ?rest1 = "concat (map (value_wire (type arg)) xs) @ rest"
  let ?r1 = "assign lv j r"
  let ?r2 = "assign item x (?r1\<lparr>unread := ?rest1\<rparr>)"
  let ?r3 = "assign nm (VList (acc @ [x])) ?r2"
  have gate: "is_flag arg \<longrightarrow>
           (\<exists>f. vars ?r1 (Local ''flags'') = Some (VInt f) \<and> bit f (flag_index arg) = True)"
    using Cons.prems(5) assms(11) by (simp add: assign_def)
  have "exec_block (recv_value arg item) ?r1 =
          Inr (if True then assign item x (?r1\<lparr>unread := ?rest1\<rparr>) else ?r1)"
    using assms(2) _ gate
  proof (rule exec_recv_value)
    show "unread ?r1 = (if True then value_wire (type arg) x else []) @ ?rest1"
      using Cons.prems(3) by (simp add: assign_def)
  qed (simp_all add: x)
  then have read: "exec_block (recv_value arg item) ?r1 = Inr ?r2"
    by simp
  have append: "exec (Stmt (Append nm item)) ?r2 = Inr ?r3"
    using Cons.prems(4) assms(7,8) by (simp add: lookup_def assign_def)
  have body: "exec_block (recv_value arg item @ [Stmt (Append nm item)]) ?r1 = Inr ?r3"
    by (simp only: exec_block_append read sum.case exec_block.simps append)
  have "\<exists>r'. exec_for lv (recv_value arg item @ [Stmt (Append nm item)]) js' ?r3 = Inr r'
           \<and> unread r' = rest \<and> written r' = written ?r3
           \<and> vars r' nm = Some (VList ((acc @ [x]) @ xs))
           \<and> (\<forall>v. v \<noteq> nm \<and> v \<noteq> item \<and> v \<noteq> lv \<longrightarrow> vars r' v = vars ?r3 v)"
    using xs js(2)
  proof (rule Cons.IH)
    show "unread ?r3 = concat (map (value_wire (type arg)) xs) @ rest"
      by (simp add: assign_def)
    show "vars ?r3 nm = Some (VList (acc @ [x]))"
      by (simp add: assign_def)
    show "is_flag arg \<longrightarrow>
           (\<exists>f. vars ?r3 (Local ''flags'') = Some (VInt f) \<and> bit f (flag_index arg))"
      using Cons.prems(5) assms(9,10,11) by (simp add: assign_def)
  qed
  then obtain r' where
    r': "exec_for lv (recv_value arg item @ [Stmt (Append nm item)]) js' ?r3 = Inr r'"
      "unread r' = rest" "written r' = written ?r3"
      "vars r' nm = Some (VList ((acc @ [x]) @ xs))"
      "\<forall>v. v \<noteq> nm \<and> v \<noteq> item \<and> v \<noteq> lv \<longrightarrow> vars r' v = vars ?r3 v"
    by blast
  from body r' js(1) show ?case
    by (simp add: assign_def)
qed


subsection \<open>Vectors\<close>

lemma case_sum_Inl_Inr [simp]: "(case x of Inl e \<Rightarrow> Inl e | Inr s \<Rightarrow> Inr s) = x"
  by (cases x) simp_all

lemma case_sum_exec_block_Nil [simp]:
  "(case x of Inl e \<Rightarrow> Inl e | Inr s \<Rightarrow> exec_block [] s) = x"
  by (cases x) simp_all

lemma item_not_flags: "n @ ''_item'' \<noteq> ''flags''"
proof
  assume eq: "n @ ''_item'' = ''flags''"
  then have "length (n @ ''_item'') = length ''flags''"
    by (rule arg_cong)
  then have "n = []"
    by simp
  with eq show False
    by simp
qed

lemma sint_of_nat_32:
  assumes "n < 2 ^ 31"
  shows "sint (of_nat n :: 32 word) = int n"
proof -
  have "int n < 2 ^ 31"
    using assms by (simp add: of_nat_less_iff [of n "2 ^ 31", where ?'a = int, simplified])
  then have "sint (word_of_int (int n) :: 32 word) = int n"
    by (intro sint_of_int_32) simp_all
  then show ?thesis
    by simp
qed

lemma exec_send_vector:
  assumes "vars s (Attr (name arg)) = Some (VList xs)"
    and "list_all (well_typed (type arg)) xs" and "\<not> flag_indicator arg"
  shows "\<exists>s'. exec_block
                [Stmt WriteVectorId, Stmt (WriteLen (Attr (name arg))),
                 Block (ForItemIn (name arg) (Attr (name arg)))
                   (send_value arg args (Local (name arg @ ''_item'')))] s = Inr s'
           \<and> written s' = written s @ vector_wire (type arg) xs
           \<and> unread s' = unread s
           \<and> (\<forall>v. v \<noteq> Local (name arg @ ''_item'') \<longrightarrow> vars s' v = vars s v)"
proof -
  let ?item = "Local (name arg @ ''_item'')"
  let ?s2 = "s\<lparr>written := written s @ [WInt 0x1cb5c415, WInt (of_nat (length xs))]\<rparr>"
  from exec_for_send [OF assms(2,3), of ?item args ?s2] obtain s' where
    s': "exec_for ?item (send_value arg args ?item) xs ?s2 = Inr s'"
      "written s' = written ?s2 @ concat (map (value_wire (type arg)) xs)"
      "unread s' = unread ?s2" "\<forall>v. v \<noteq> ?item \<longrightarrow> vars s' v = vars ?s2 v"
    by blast
  have "exec_block
          [Stmt WriteVectorId, Stmt (WriteLen (Attr (name arg))),
           Block (ForItemIn (name arg) (Attr (name arg))) (send_value arg args ?item)] s
        = exec_for ?item (send_value arg args ?item) xs ?s2"
    using assms(1) by (simp add: emit_def lookup_def)
  with s' show ?thesis
    by (simp add: vector_wire_def)
qed

lemma exec_recv_vector:
  assumes "list_all (well_typed (type arg)) xs" and "\<not> flag_indicator arg"
    and "length xs < 2 ^ 31"
    and "unread r = vector_wire (type arg) xs @ rest"
    and "is_flag arg \<longrightarrow>
           (\<exists>f. vars r (Local ''flags'') = Some (VInt f) \<and> bit f (flag_index arg))"
  shows "\<exists>r'. exec_block
                [Stmt ReadVectorId, Stmt (InitList (Attr (name arg))),
                 Stmt (ReadInt (Attr (name arg @ ''_len''))),
                 Block (ForRange (Attr (name arg @ ''_len'')))
                   (recv_value arg (Local (name arg @ ''_item''))
                    @ [Stmt (Append (Attr (name arg)) (Local (name arg @ ''_item'')))])] r
              = Inr r'
           \<and> unread r' = rest \<and> written r' = written r
           \<and> vars r' (Attr (name arg)) = Some (VList xs)
           \<and> (\<forall>v. v \<noteq> Attr (name arg) \<and> v \<noteq> Attr (name arg @ ''_len'')
                  \<and> v \<noteq> Local (name arg @ ''_item'') \<and> v \<noteq> Local ''_'' \<longrightarrow>
                  vars r' v = vars r v)"
proof -
  let ?nm = "Attr (name arg)"
  let ?len = "Attr (name arg @ ''_len'')"
  let ?item = "Local (name arg @ ''_item'')"
  let ?body = "recv_value arg ?item @ [Stmt (Append ?nm ?item)]"
  let ?js = "map (\<lambda>j. VInt (int j)) [0..<length xs]"
  let ?r3 = "assign ?len (VInt (int (length xs)))
               (assign ?nm (VList [])
                  (r\<lparr>unread := concat (map (value_wire (type arg)) xs) @ rest\<rparr>))"
  have "\<exists>r'. exec_for (Local ''_'') ?body ?js ?r3 = Inr r'
           \<and> unread r' = rest \<and> written r' = written ?r3
           \<and> vars r' ?nm = Some (VList ([] @ xs))
           \<and> (\<forall>v. v \<noteq> ?nm \<and> v \<noteq> ?item \<and> v \<noteq> Local ''_'' \<longrightarrow> vars r' v = vars ?r3 v)"
    using assms(1,2)
  proof (rule exec_for_recv)
    show "length ?js = length xs"
      by simp
    show "unread ?r3 = concat (map (value_wire (type arg)) xs) @ rest"
      by (simp add: assign_def)
    show "vars ?r3 ?nm = Some (VList [])"
      by (simp add: assign_def)
    show "is_flag arg \<longrightarrow>
           (\<exists>f. vars ?r3 (Local ''flags'') = Some (VInt f) \<and> bit f (flag_index arg))"
      using assms(5) by (simp add: assign_def)
    show "?item \<noteq> Local ''flags''"
      by (simp add: item_not_flags)
  qed simp_all
  then obtain r' where
    r': "exec_for (Local ''_'') ?body ?js ?r3 = Inr r'" "unread r' = rest"
      "written r' = written ?r3" "vars r' ?nm = Some (VList xs)"
      "\<forall>v. v \<noteq> ?nm \<and> v \<noteq> ?item \<and> v \<noteq> Local ''_'' \<longrightarrow> vars r' v = vars ?r3 v"
    by auto
  have "exec_block
          [Stmt ReadVectorId, Stmt (InitList ?nm), Stmt (ReadInt ?len),
           Block (ForRange ?len) ?body] r
        = exec_for (Local ''_'') ?body ?js ?r3"
    using assms(3,4)
    by (simp add: vector_wire_def read_value_def read_var_def assign_def lookup_def
          sint_of_nat_32)
  with r' show ?thesis
    by (simp add: assign_def)
qed



subsection \<open>The flags word and the optional arguments\<close>








subsection \<open>Running the code of one argument\<close>

lemma exec_send_code:
  assumes "\<not> generic_definition arg \<longrightarrow> \<not> flag_indicator arg \<longrightarrow>
             vars s (Attr (name arg)) = Some (val (name arg))"
    and "flag_indicator arg \<longrightarrow>
           (\<forall>flag \<in> set args. is_flag flag \<longrightarrow>
              vars s (Attr (name flag)) = Some (val (name flag)))"
    and "flag_indicator arg \<longrightarrow> \<not> is_flag arg \<and> \<not> is_vector arg"
    and "\<not> generic_definition arg \<longrightarrow> \<not> flag_indicator arg \<longrightarrow>
           arg_admits arg (val (name arg))"
  shows "\<exists>s'. exec_block (send_code arg args) s = Inr s'
           \<and> written s' = written s @ arg_wire args val arg
           \<and> unread s' = unread s
           \<and> (\<forall>n. vars s' (Attr n) = vars s (Attr n))"
proof -
  consider (generic) "generic_definition arg"
    | (indicator) "\<not> generic_definition arg" "flag_indicator arg"
    | (absent) "\<not> generic_definition arg" "\<not> flag_indicator arg" "is_flag arg"
        "val (name arg) = VNone"
    | (vector) "\<not> generic_definition arg" "\<not> flag_indicator arg" "is_vector arg"
        "\<not> (is_flag arg \<and> val (name arg) = VNone)"
    | (plain) "\<not> generic_definition arg" "\<not> flag_indicator arg" "\<not> is_vector arg"
        "\<not> (is_flag arg \<and> val (name arg) = VNone)"
    by blast
  then show ?thesis
  proof cases
    case generic
    then show ?thesis
      by (simp add: send_code_def arg_wire_def)
  next
    case indicator
    with assms(3) have code: "send_code arg args = send_flags args"
      by (simp add: send_code_def send_value_def guarded_def)
    from indicator assms(3) have wire: "arg_wire args val arg = [WInt (of_int (flags_value args val))]"
      by (simp add: arg_wire_def)
    from indicator assms(2) have "\<forall>flag \<in> set args. is_flag flag \<longrightarrow>
              vars s (Attr (name flag)) = Some (val (name flag))"
      by blast
    then have "exec_block (send_flags args) s =
           Inr (s\<lparr>vars := (vars s)(Local ''flags'' \<mapsto> VInt (flags_value args val)),
                  written := written s @ [WInt (of_int (flags_value args val))]\<rparr>)"
      by (rule exec_send_flags)
    then show ?thesis
      unfolding code wire by simp
  next
    case absent
    with assms(1) have v: "vars s (Attr (name arg)) = Some VNone"
      by simp
    from absent have wire: "arg_wire args val arg = []"
      by (simp add: arg_wire_def)
    from absent v have "exec_block (send_code arg args) s = Inr s"
      by (simp add: send_code_def send_value_def guarded_def lookup_def)
    then show ?thesis
      unfolding wire by simp
  next
    case vector
    with assms(4) have "arg_admits arg (val (name arg))"
      by blast
    with vector obtain xs where xs: "val (name arg) = VList xs"
      "list_all (well_typed (type arg)) xs"
      by (cases "val (name arg)") (auto simp: arg_admits_def)
    from vector assms(1) xs have v: "vars s (Attr (name arg)) = Some (VList xs)"
      by simp
    from vector xs have wire: "arg_wire args val arg = vector_wire (type arg) xs"
      by (simp add: arg_wire_def)
    let ?body = "[Stmt WriteVectorId, Stmt (WriteLen (Attr (name arg))),
                  Block (ForItemIn (name arg) (Attr (name arg)))
                    (send_value arg args (Local (name arg @ ''_item'')))]"
    from exec_send_vector [OF v xs(2) vector(2), of args] obtain s' where
      s': "exec_block ?body s = Inr s'" "written s' = written s @ vector_wire (type arg) xs"
        "unread s' = unread s"
        "\<forall>v. v \<noteq> Local (name arg @ ''_item'') \<longrightarrow> vars s' v = vars s v"
      by blast
    have "exec_block (send_code arg args) s = exec_block ?body s"
      using vector v by (simp add: send_code_def guarded_def lookup_def)
    with s' show ?thesis
      unfolding wire by simp
  next
    case plain
    with assms(1) have v: "vars s (Attr (name arg)) = Some (val (name arg))"
      by blast
    from plain assms(4) have "arg_admits arg (val (name arg))"
      by blast
    with plain have ty: "well_typed (type arg) (val (name arg))"
      by (simp add: arg_admits_def)
    from ty have some: "val (name arg) \<noteq> VNone"
      by (rule well_typed_not_None)
    from plain some have wire: "arg_wire args val arg = value_wire (type arg) (val (name arg))"
      by (simp add: arg_wire_def)
    from plain have code: "send_code arg args = send_value arg args (Attr (name arg))"
      by (simp add: send_code_def)
    have "exec_block (send_value arg args (Attr (name arg))) s =
           Inr (s\<lparr>written := written s
                  @ (if is_flag arg \<and> val (name arg) = VNone then []
                     else value_wire (type arg) (val (name arg)))\<rparr>)"
      using v plain(2) ty by (intro exec_send_value) simp_all
    with some show ?thesis
      unfolding wire code by simp
  qed
qed

lemma exec_recv_flags_word:
  assumes "unread r = WInt w # rest"
  shows "exec_block [Stmt (ReadInt (Local ''flags'')), Stmt (Text [])] r
           = Inr (r\<lparr>vars := (vars r)(Local ''flags'' \<mapsto> VInt (sint w)), unread := rest\<rparr>)"
  using assms by (simp add: read_var_def read_value_def assign_def)

lemma exec_recv_code:
  assumes "unread r = arg_wire args val arg @ rest"
    and "flag_indicator arg \<longrightarrow> \<not> is_flag arg \<and> \<not> is_vector arg \<and> \<not> generic_definition arg"
    and "generic_definition arg \<longrightarrow> \<not> is_flag arg"
    and "\<not> generic_definition arg \<longrightarrow> \<not> flag_indicator arg \<longrightarrow>
           arg_admits arg (val (name arg))"
    and "is_flag arg \<longrightarrow>
           (\<exists>f. vars r (Local ''flags'') = Some (VInt f)
              \<and> bit f (flag_index arg) = (val (name arg) \<noteq> VNone))"
  shows "\<exists>r'. exec_block (recv_code arg) r = Inr r' \<and> unread r' = rest
           \<and> vars r' (Local ''flags'') =
               (if flag_indicator arg
                then Some (VInt (sint (of_int (flags_value args val) :: 32 word)))
                else vars r (Local ''flags''))
           \<and> (on_wire val arg \<longrightarrow> vars r' (Attr (name arg)) = Some (val (name arg)))
           \<and> (\<forall>m. m \<notin> assigned val arg \<longrightarrow> vars r' (Attr m) = vars r (Attr m))"
proof -
  consider (generic) "generic_definition arg"
    | (indicator) "\<not> generic_definition arg" "flag_indicator arg"
    | (absent) "\<not> generic_definition arg" "\<not> flag_indicator arg" "is_flag arg"
        "val (name arg) = VNone"
    | (vector) "\<not> generic_definition arg" "\<not> flag_indicator arg" "is_vector arg"
        "\<not> (is_flag arg \<and> val (name arg) = VNone)"
    | (plain) "\<not> generic_definition arg" "\<not> flag_indicator arg" "\<not> is_vector arg"
        "\<not> (is_flag arg \<and> val (name arg) = VNone)"
    by blast
  then show ?thesis
  proof cases
    case generic
    with assms(1,2) show ?thesis
      by (auto simp: recv_code_def arg_wire_def on_wire_def)
  next
    case indicator
    with assms(2) have code: "recv_code arg = [Stmt (ReadInt (Local ''flags'')), Stmt (Text [])]"
      by (simp add: recv_code_def recv_value_def guarded_def)
    from indicator assms(1,2) have "unread r = WInt (of_int (flags_value args val)) # rest"
      by (simp add: arg_wire_def)
    then have "exec_block [Stmt (ReadInt (Local ''flags'')), Stmt (Text [])] r
           = Inr (r\<lparr>vars := (vars r)(Local ''flags'' \<mapsto>
                      VInt (sint (of_int (flags_value args val) :: 32 word))), unread := rest\<rparr>)"
      by (rule exec_recv_flags_word)
    with indicator show ?thesis
      unfolding code by (simp add: on_wire_def)
  next
    case absent
    with assms(5) obtain f where "vars r (Local ''flags'') = Some (VInt f)"
      "\<not> bit f (flag_index arg)"
      by auto
    with absent have "exec_block (recv_code arg) r = Inr r"
      by (simp add: recv_code_def recv_value_def guarded_def lookup_def
            and_exp_eq_0_iff_not_bit)
    with absent assms(1) show ?thesis
      by (simp add: arg_wire_def on_wire_def)
  next
    case vector
    with assms(4) have "arg_admits arg (val (name arg))"
      by blast
    with vector obtain xs where xs: "val (name arg) = VList xs" "length xs < 2 ^ 31"
      "list_all (well_typed (type arg)) xs"
      by (cases "val (name arg)") (auto simp: arg_admits_def)
    from vector xs assms(1) have wire: "unread r = vector_wire (type arg) xs @ rest"
      by (simp add: arg_wire_def)
    from assms(5) xs(1) have gate: "is_flag arg \<longrightarrow>
           (\<exists>f. vars r (Local ''flags'') = Some (VInt f) \<and> bit f (flag_index arg))"
      by auto
    let ?body = "[Stmt ReadVectorId, Stmt (InitList (Attr (name arg))),
                 Stmt (ReadInt (Attr (name arg @ ''_len''))),
                 Block (ForRange (Attr (name arg @ ''_len'')))
                   (recv_value arg (Local (name arg @ ''_item''))
                    @ [Stmt (Append (Attr (name arg)) (Local (name arg @ ''_item'')))])]"
    from exec_recv_vector [OF xs(3) vector(2) xs(2) wire gate] obtain r' where
      r': "exec_block ?body r = Inr r'" "unread r' = rest"
        "vars r' (Attr (name arg)) = Some (VList xs)"
        "\<forall>v. v \<noteq> Attr (name arg) \<and> v \<noteq> Attr (name arg @ ''_len'')
              \<and> v \<noteq> Local (name arg @ ''_item'') \<and> v \<noteq> Local ''_'' \<longrightarrow>
              vars r' v = vars r v"
      by blast
    have "exec_block (recv_code arg) r = exec_block ?body r"
      using vector gate
      by (auto simp: recv_code_def guarded_def lookup_def and_exp_eq_0_iff_not_bit)
    moreover from r'(4) have "vars r' (Local ''flags'') = vars r (Local ''flags'')"
      by (simp add: item_not_flags)
    moreover from r'(4) vector have
      "\<forall>m. m \<notin> assigned val arg \<longrightarrow> vars r' (Attr m) = vars r (Attr m)"
      by (simp add: assigned_def on_wire_def)
    ultimately show ?thesis
      using r' vector xs(1) by simp
  next
    case plain
    let ?present = "val (name arg) \<noteq> VNone \<or> \<not> is_flag arg"
    from plain assms(4) have "arg_admits arg (val (name arg))"
      by blast
    with plain have ty: "well_typed (type arg) (val (name arg))"
      by (simp add: arg_admits_def)
    then have some: "val (name arg) \<noteq> VNone"
      by (rule well_typed_not_None)
    from plain some assms(1) have wire:
      "unread r = (if True then value_wire (type arg) (val (name arg)) else []) @ rest"
      by (simp add: arg_wire_def)
    have "exec_block (recv_value arg (Attr (name arg))) r =
            Inr (if True then assign (Attr (name arg)) (val (name arg)) (r\<lparr>unread := rest\<rparr>)
                 else r)"
      using plain(2) wire
    proof (rule exec_recv_value)
      show "is_flag arg \<longrightarrow>
           (\<exists>f. vars r (Local ''flags'') = Some (VInt f) \<and> bit f (flag_index arg) = True)"
        using assms(5) some by simp
    qed (simp_all add: ty)
    with plain some show ?thesis
      by (simp add: recv_code_def assign_def assigned_def on_wire_def)
  qed
qed

subsection \<open>Running the code of all arguments\<close>

lemma exec_send_all:
  assumes "\<forall>arg \<in> set args.
             (flag_indicator arg \<longrightarrow> \<not> is_flag arg \<and> \<not> is_vector arg \<and> \<not> generic_definition arg)
             \<and> (generic_definition arg \<longrightarrow> \<not> is_flag arg)"
    and "\<forall>arg \<in> set args. \<not> generic_definition arg \<longrightarrow> \<not> flag_indicator arg \<longrightarrow>
           arg_admits arg (val (name arg))"
    and "set as \<subseteq> set args"
    and "\<forall>arg \<in> set args. \<not> generic_definition arg \<longrightarrow> \<not> flag_indicator arg \<longrightarrow>
           vars s (Attr (name arg)) = Some (val (name arg))"
  shows "\<exists>s'. exec_block (concat (map (\<lambda>arg. send_code arg args) as)) s = Inr s'
           \<and> written s' = written s @ concat (map (arg_wire args val) as)
           \<and> unread s' = unread s
           \<and> (\<forall>n. vars s' (Attr n) = vars s (Attr n))"
  using assms(3,4)
proof (induction as arbitrary: s)
  case Nil
  then show ?case by simp
next
  case (Cons a as)
  from Cons.prems(1) have a: "a \<in> set args" and as: "set as \<subseteq> set args"
    by simp_all
  have flags: "\<forall>flag \<in> set args. is_flag flag \<longrightarrow>
                 vars s (Attr (name flag)) = Some (val (name flag))"
    using assms(1) Cons.prems(2) by blast
  have "\<exists>s'. exec_block (send_code a args) s = Inr s'
           \<and> written s' = written s @ arg_wire args val a
           \<and> unread s' = unread s
           \<and> (\<forall>n. vars s' (Attr n) = vars s (Attr n))"
    using a assms(1,2) Cons.prems(2) flags by (intro exec_send_code) blast+
  then obtain s1 where s1: "exec_block (send_code a args) s = Inr s1"
    "written s1 = written s @ arg_wire args val a" "unread s1 = unread s"
    "\<forall>n. vars s1 (Attr n) = vars s (Attr n)"
    by blast
  from Cons.prems(2) s1(4) have "\<forall>arg \<in> set args. \<not> generic_definition arg \<longrightarrow>
      \<not> flag_indicator arg \<longrightarrow> vars s1 (Attr (name arg)) = Some (val (name arg))"
    by simp
  from Cons.IH [OF as this] obtain s' where
    s': "exec_block (concat (map (\<lambda>arg. send_code arg args) as)) s1 = Inr s'"
      "written s' = written s1 @ concat (map (arg_wire args val) as)"
      "unread s' = unread s1" "\<forall>n. vars s' (Attr n) = vars s1 (Attr n)"
    by blast
  from s1 s' show ?case
    by (simp add: exec_block_append)
qed

lemma flag_bit_own:
  assumes "\<forall>arg \<in> set args. \<forall>other \<in> set args.
             is_flag arg \<and> is_flag other \<and> flag_index arg = flag_index other \<longrightarrow>
             (val (name arg) = VNone) = (val (name other) = VNone)"
    and "a \<in> set args" and "is_flag a" and "flag_index a < 32"
  shows "bit (sint (of_int (flags_value args val) :: 32 word)) (flag_index a)
           = (val (name a) \<noteq> VNone)"
proof -
  have "bit (sint (of_int (flags_value args val) :: 32 word)) (flag_index a)
          = bit (flags_value args val) (flag_index a)"
    using assms(4) by (rule bit_sint_of_int_32)
  also have "\<dots> = (\<exists>flag \<in> set args. is_flag flag \<and> val (name flag) \<noteq> VNone
                       \<and> flag_index flag = flag_index a)"
    by (rule bit_flags_value)
  also have "\<dots> = (val (name a) \<noteq> VNone)"
    using assms(1,2,3) by blast
  finally show ?thesis .
qed

lemma exec_recv_all:
  assumes "\<forall>arg \<in> set args.
             (flag_indicator arg \<longrightarrow> \<not> is_flag arg \<and> \<not> is_vector arg \<and> \<not> generic_definition arg)
             \<and> (generic_definition arg \<longrightarrow> \<not> is_flag arg)
             \<and> (is_flag arg \<longrightarrow> flag_index arg < 32)"
    and "\<forall>arg \<in> set args. \<not> generic_definition arg \<longrightarrow> \<not> flag_indicator arg \<longrightarrow>
           arg_admits arg (val (name arg))"
    and "\<forall>arg \<in> set args. \<forall>other \<in> set args.
             is_flag arg \<and> is_flag other \<and> flag_index arg = flag_index other \<longrightarrow>
             (val (name arg) = VNone) = (val (name other) = VNone)"
    and "\<forall>arg \<in> set args. \<forall>other \<in> set args.
           on_wire val arg \<and> is_vector arg \<and> on_wire val other \<longrightarrow>
           name other \<noteq> name arg @ ''_len''"
    and "set as \<subseteq> set args" and "flags_follow seen as"
    and "seen \<longrightarrow> vars r (Local ''flags'')
                     = Some (VInt (sint (of_int (flags_value args val) :: 32 word)))"
    and "unread r = concat (map (arg_wire args val) as) @ rest"
  shows "\<exists>r'. exec_block (concat (map recv_code as)) r = Inr r' \<and> unread r' = rest
           \<and> (\<forall>arg \<in> set as. on_wire val arg \<longrightarrow>
                 vars r' (Attr (name arg)) = Some (val (name arg)))
           \<and> (\<forall>m. (\<forall>arg \<in> set as. m \<notin> assigned val arg) \<longrightarrow>
                 vars r' (Attr m) = vars r (Attr m))"
  using assms(5-8)
proof (induction as arbitrary: r seen)
  case Nil
  then show ?case by simp
next
  case (Cons a as)
  let ?Fs = "sint (of_int (flags_value args val) :: 32 word)"
  let ?rest1 = "concat (map (arg_wire args val) as) @ rest"
  from Cons.prems(1) have a: "a \<in> set args" and as: "set as \<subseteq> set args"
    by simp_all
  from Cons.prems(2) have seen: "is_flag a \<longrightarrow> seen"
    and follow: "flags_follow (seen \<or> flag_indicator a) as"
    by simp_all
  have gate: "is_flag a \<longrightarrow>
           (\<exists>f. vars r (Local ''flags'') = Some (VInt f)
              \<and> bit f (flag_index a) = (val (name a) \<noteq> VNone))"
  proof
    assume flag: "is_flag a"
    with seen Cons.prems(3) have "vars r (Local ''flags'') = Some (VInt ?Fs)"
      by blast
    moreover from assms(1) a flag have "flag_index a < 32"
      by blast
    with assms(3) a flag have "bit ?Fs (flag_index a) = (val (name a) \<noteq> VNone)"
      by (intro flag_bit_own)
    ultimately show "\<exists>f. vars r (Local ''flags'') = Some (VInt f)
              \<and> bit f (flag_index a) = (val (name a) \<noteq> VNone)"
      by blast
  qed
  have "\<exists>r'. exec_block (recv_code a) r = Inr r' \<and> unread r' = ?rest1
           \<and> vars r' (Local ''flags'') =
               (if flag_indicator a then Some (VInt ?Fs) else vars r (Local ''flags''))
           \<and> (on_wire val a \<longrightarrow> vars r' (Attr (name a)) = Some (val (name a)))
           \<and> (\<forall>m. m \<notin> assigned val a \<longrightarrow> vars r' (Attr m) = vars r (Attr m))"
  proof (rule exec_recv_code)
    show "unread r = arg_wire args val a @ ?rest1"
      using Cons.prems(4) by simp
  qed (use a assms(1,2) gate in blast)+
  then obtain r1 where r1: "exec_block (recv_code a) r = Inr r1" "unread r1 = ?rest1"
    "vars r1 (Local ''flags'') =
       (if flag_indicator a then Some (VInt ?Fs) else vars r (Local ''flags''))"
    "on_wire val a \<longrightarrow> vars r1 (Attr (name a)) = Some (val (name a))"
    "\<forall>m. m \<notin> assigned val a \<longrightarrow> vars r1 (Attr m) = vars r (Attr m)"
    by blast
  have seen1: "seen \<or> flag_indicator a \<longrightarrow> vars r1 (Local ''flags'') = Some (VInt ?Fs)"
    using r1(3) Cons.prems(3) by simp
  from Cons.IH [OF as follow seen1 r1(2)] obtain r' where
    r': "exec_block (concat (map recv_code as)) r1 = Inr r'" "unread r' = rest"
      "\<forall>arg \<in> set as. on_wire val arg \<longrightarrow> vars r' (Attr (name arg)) = Some (val (name arg))"
      "\<forall>m. (\<forall>arg \<in> set as. m \<notin> assigned val arg) \<longrightarrow> vars r' (Attr m) = vars r1 (Attr m)"
    by blast
  have first: "vars r' (Attr (name a)) = Some (val (name a))" if wire: "on_wire val a"
  proof (cases "\<forall>arg \<in> set as. name a \<notin> assigned val arg")
    case True
    with r'(4) have "vars r' (Attr (name a)) = vars r1 (Attr (name a))"
      by blast
    with r1(4) wire show ?thesis
      by simp
  next
    case False
    then obtain b where b: "b \<in> set as" "name a \<in> assigned val b"
      by blast
    then have b_wire: "on_wire val b"
      by (auto simp: assigned_def split: if_splits)
    from as b(1) have "b \<in> set args"
      by blast
    with assms(4) a wire b_wire have "is_vector b \<longrightarrow> name a \<noteq> name b @ ''_len''"
      by blast
    with b(2) b_wire have "name a = name b"
      by (auto simp: assigned_def split: if_splits)
    with r'(3) b(1) b_wire show ?thesis
      by auto
  qed
  have frame: "vars r' (Attr m) = vars r (Attr m)"
    if "\<forall>arg \<in> set (a # as). m \<notin> assigned val arg" for m
  proof -
    from that have "vars r' (Attr m) = vars r1 (Attr m)"
      using r'(4) by simp
    also from that have "\<dots> = vars r (Attr m)"
      using r1(5) by simp
    finally show ?thesis .
  qed
  have "exec_block (concat (map recv_code (a # as))) r = Inr r'"
    using r1(1) r'(1) by (simp add: exec_block_append)
  with r'(2,3) first frame show ?case
    by auto
qed

end
